theory Spec2Isabelle
  imports Complex_Main "HOL-Library.Multiset" "HOL-Library.List_Lexorder" "HOL-Library.Char_ord"
begin

section \<open>Strings, sets and numbers as the program uses them\<close>

text \<open>
  \<^verbatim>\<open>s.split(sep)\<close> for a one-character separator: the pieces between the
  separators; a string with no separator (the empty string too) gives one piece.
\<close>

fun split :: "char \<Rightarrow> string \<Rightarrow> string list" where
  "split sep [] = [[]]"
| "split sep (c # cs) =
     (if c = sep then [] # split sep cs
      else (case split sep cs of [] \<Rightarrow> [[c]] | l # ls \<Rightarrow> (c # l) # ls))"

text \<open>\<^verbatim>\<open>parts.join(sep)\<close>.\<close>

fun join :: "string \<Rightarrow> string list \<Rightarrow> string" where
  "join sep [] = []"
| "join sep [x] = x"
| "join sep (x # y # ys) = x @ sep @ join sep (y # ys)"

definition newline :: char where
  "newline = CHR 0x0A"

definition startsWith :: "string \<Rightarrow> string \<Rightarrow> bool" where
  "startsWith s p = (take (length p) s = p)"

text \<open>A number printed in a template literal (decimal digits).\<close>

fun showNat :: "nat \<Rightarrow> string" where
  "showNat n =
     (if n < 10 then [char_of (48 + n)]
      else showNat (n div 10) @ [char_of (48 + n mod 10)])"

text \<open>
  A JavaScript \<^verbatim>\<open>Set\<close> of strings is kept as the list of its members in insertion
  order, which is the order in which the program iterates over it; \<open>setAdd\<close> is
  \<^verbatim>\<open>set.add(x)\<close> and \<open>newSet\<close> is \<^verbatim>\<open>new Set(xs)\<close>.
\<close>

definition setAdd :: "'a \<Rightarrow> 'a list \<Rightarrow> 'a list" where
  "setAdd x xs = (if x \<in> set xs then xs else xs @ [x])"

definition newSet :: "'a list \<Rightarrow> 'a list" where
  "newSet xs = fold setAdd xs []"

text \<open>
  A JavaScript number is an IEEE double. The model computes with real numbers, so it
  leaves rounding out, and keeps the one effect of the format that changes what the
  functions below return: a division by zero gives \<^verbatim>\<open>Infinity\<close> or \<^verbatim>\<open>NaN\<close>,
  and these stay non-finite through the additions, multiplications and divisions by a
  count that the program performs on them. \<open>NonFinite\<close> stands for both.
\<close>

datatype number = Fin real | NonFinite

fun nadd :: "number \<Rightarrow> number \<Rightarrow> number" where
  "nadd (Fin a) (Fin b) = Fin (a + b)"
| "nadd _ _ = NonFinite"

fun nmul :: "number \<Rightarrow> number \<Rightarrow> number" where
  "nmul (Fin a) (Fin b) = Fin (a * b)"
| "nmul _ _ = NonFinite"

fun ndiv :: "number \<Rightarrow> number \<Rightarrow> number" where
  "ndiv (Fin a) (Fin b) = (if b = 0 then NonFinite else Fin (a / b))"
| "ndiv _ _ = NonFinite"

fun nsqrt :: "number \<Rightarrow> number" where
  "nsqrt (Fin a) = (if a < 0 then NonFinite else Fin (sqrt a))"
| "nsqrt NonFinite = NonFinite"

text \<open>What the program can throw or leave to the engine.\<close>

datatype failure =
    ReadError string  \<comment> \<open>\<^verbatim>\<open>fs.readFile\<close> rejects\<close>
  | WriteError string  \<comment> \<open>\<^verbatim>\<open>fs.writeFile\<close> rejects\<close>
  | TypeError  \<comment> \<open>an index into \<^verbatim>\<open>undefined\<close>, a call with a wrong argument\<close>
  | SyntaxError  \<comment> \<open>\<^verbatim>\<open>JSON.parse\<close> of a text that is not JSON\<close>
  | SortOrderUnspecified  \<comment> \<open>\<^verbatim>\<open>Array.prototype.sort\<close> with an inconsistent comparator\<close>

section \<open>Node's \<^verbatim>\<open>path\<close> module (POSIX)\<close>

text \<open>
  \<^verbatim>\<open>path.dirname\<close>, \<^verbatim>\<open>path.join\<close> and \<^verbatim>\<open>path.extname\<close> belong to the
  runtime; they are written here after Node's own implementation, for paths with
  \<^verbatim>\<open>/\<close> as the separator.
\<close>

fun normalizeString :: "bool \<Rightarrow> string list \<Rightarrow> string list \<Rightarrow> string list" where
  "normalizeString allowAboveRoot [] res = res"
| "normalizeString allowAboveRoot (seg # segs) res =
     (if seg = [] \<or> seg = ''.'' then normalizeString allowAboveRoot segs res
      else if seg = ''..'' then
        (if res \<noteq> [] \<and> last res \<noteq> ''..''
         then normalizeString allowAboveRoot segs (butlast res)
         else if allowAboveRoot then normalizeString allowAboveRoot segs (res @ [''..''])
         else normalizeString allowAboveRoot segs res)
      else normalizeString allowAboveRoot segs (res @ [seg]))"

definition normalizePath :: "string \<Rightarrow> string" where
  "normalizePath p =
     (if p = [] then ''.''
      else
        let isAbsolute = (hd p = CHR ''/'');
            trailingSeparator = (last p = CHR ''/'');
            q = join ''/'' (normalizeString (\<not> isAbsolute) (split (CHR ''/'') p) [])
        in if q = [] then (if isAbsolute then ''/'' else if trailingSeparator then ''./'' else ''.'')
           else
             let q' = (if trailingSeparator then q @ ''/'' else q)
             in if isAbsolute then CHR ''/'' # q' else q')"

definition pathJoin :: "string \<Rightarrow> string \<Rightarrow> string" where
  "pathJoin a b =
     (case filter (\<lambda>s. s \<noteq> []) [a, b] of
        [] \<Rightarrow> ''.''
      | args \<Rightarrow> normalizePath (join ''/'' args))"

text \<open>
  \<^verbatim>\<open>dirname\<close> scans from the last character down to index 1 for the first
  \<^verbatim>\<open>/\<close> that follows a character other than \<^verbatim>\<open>/\<close>.
\<close>

fun dirnameEnd :: "string \<Rightarrow> nat \<Rightarrow> bool \<Rightarrow> nat option" where
  "dirnameEnd p 0 matchedSlash = None"
| "dirnameEnd p (Suc i) matchedSlash =
     (if p ! Suc i = CHR ''/''
      then (if \<not> matchedSlash then Some (Suc i) else dirnameEnd p i matchedSlash)
      else dirnameEnd p i False)"

definition dirname :: "string \<Rightarrow> string" where
  "dirname p =
     (if p = [] then ''.''
      else
        let hasRoot = (hd p = CHR ''/'') in
        case dirnameEnd p (length p - 1) True of
          None \<Rightarrow> (if hasRoot then ''/'' else ''.'')
        | Some e \<Rightarrow> (if hasRoot \<and> e = 1 then ''//'' else take e p))"

text \<open>
  \<^verbatim>\<open>extname\<close>: the text from the last \<^verbatim>\<open>.\<close> of the last path component on,
  and the empty string when that component has no \<^verbatim>\<open>.\<close>, starts with its only
  \<^verbatim>\<open>.\<close>, or is \<^verbatim>\<open>..\<close>.
\<close>

fun dropTrailingSlashes :: "string \<Rightarrow> string" where
  "dropTrailingSlashes p = rev (dropWhile (\<lambda>c. c = CHR ''/'') (rev p))"

definition lastComponent :: "string \<Rightarrow> string" where
  "lastComponent p = last (split (CHR ''/'') (dropTrailingSlashes p))"

definition extname :: "string \<Rightarrow> string" where
  "extname p =
     (let b = lastComponent p;
          afterDot = rev (takeWhile (\<lambda>c. c \<noteq> CHR ''.'') (rev b))
      in if CHR ''.'' \<notin> set b then []
         else if length afterDot + 1 = length b then []
         else if b = ''..'' then []
         else CHR ''.'' # afterDot)"

section \<open>Dependency graph (\<^verbatim>\<open>src/context/graph.ts\<close>)\<close>

text \<open>
  \<^verbatim>\<open>nodes\<close> is a \<^verbatim>\<open>Set<string>\<close>; \<^verbatim>\<open>edges\<close> and \<^verbatim>\<open>reverseEdges\<close> are
  \<^verbatim>\<open>Map<string, Set<string>>\<close>.
\<close>

record FileGraph =
  nodes :: "string list"
  edges :: "string \<rightharpoonup> string list"
  reverseEdges :: "string \<rightharpoonup> string list"

text \<open>
  \<^verbatim>\<open>resolveImport\<close>: the loop over the extensions leaves at its first round, so a
  path with no extension gets \<^verbatim>\<open>.ts\<close>; nothing looks the result up among the files.
\<close>

definition resolveImport :: "string \<Rightarrow> string \<Rightarrow> string" where
  "resolveImport fromFile importPath =
     (let dir = dirname fromFile;
          resolved = pathJoin dir importPath
      in if extname resolved = []
         then (case [''.ts'', ''.tsx'', ''.js'', ''.jsx'', ''/index.ts'', ''/index.js''] of
                 [] \<Rightarrow> resolved
               | ext # _ \<Rightarrow> resolved @ ext)
         else resolved)"

text \<open>
  The regular expression \<^verbatim>\<open>/import.*from\s+['"]([^'"]+)['"]/g\<close> of
  \<^verbatim>\<open>extractImports\<close>, on strings of code units below 256. After \<^verbatim>\<open>from\<close> the
  match has no choice: all the white space that follows (at least one character), a
  quote, all the characters up to the next quote (at least one), and that quote.
  \<open>matchFrom\<close> returns the captured group and the text behind the match.
\<close>

definition isLineTerminator :: "char \<Rightarrow> bool" where
  "isLineTerminator c = (c = CHR 0x0A \<or> c = CHR 0x0D)"

definition isSpace :: "char \<Rightarrow> bool" where
  "isSpace c =
     (c \<in> set [CHR 0x09, CHR 0x0A, CHR 0x0B, CHR 0x0C, CHR 0x0D, CHR 0x20, CHR 0xA0])"

definition isQuote :: "char \<Rightarrow> bool" where
  "isQuote c = (c = CHR 0x27 \<or> c = CHR 0x22)"

definition matchFrom :: "string \<Rightarrow> (string \<times> string) option" where
  "matchFrom s =
     (if \<not> startsWith s ''from'' then None
      else if takeWhile isSpace (drop 4 s) = [] then None
      else
        case dropWhile isSpace (drop 4 s) of
          [] \<Rightarrow> None
        | q # s3 \<Rightarrow>
            if \<not> isQuote q then None
            else if takeWhile (\<lambda>c. \<not> isQuote c) s3 = [] then None
            else
              case dropWhile (\<lambda>c. \<not> isQuote c) s3 of
                [] \<Rightarrow> None
              | q' # rest \<Rightarrow> Some (takeWhile (\<lambda>c. \<not> isQuote c) s3, rest))"

text \<open>
  \<^verbatim>\<open>.*\<close> is greedy and stays on the line: the longest stretch is tried first, then
  the shorter ones.
\<close>

fun matchDotStar :: "string \<Rightarrow> (string \<times> string) option" where
  "matchDotStar [] = matchFrom []"
| "matchDotStar (c # cs) =
     (if isLineTerminator c then matchFrom (c # cs)
      else
        case matchDotStar cs of
          Some m \<Rightarrow> Some m
        | None \<Rightarrow> matchFrom (c # cs))"

definition matchImport :: "string \<Rightarrow> (string \<times> string) option" where
  "matchImport s = (if startsWith s ''import'' then matchDotStar (drop 6 s) else None)"

text \<open>
  The loop \<^verbatim>\<open>while ((match = importRegex.exec(code)) !== null)\<close>: the leftmost
  match from \<^verbatim>\<open>lastIndex\<close> on, which then moves behind the match. \<open>skip\<close> counts
  the characters of the last match that are still ahead.
\<close>

fun scanImports :: "nat \<Rightarrow> string \<Rightarrow> string list" where
  "scanImports skip [] = []"
| "scanImports skip (c # cs) =
     (if skip > 0 then scanImports (skip - 1) cs
      else
        case matchImport (c # cs) of
          None \<Rightarrow> scanImports 0 cs
        | Some (importPath, rest) \<Rightarrow> importPath # scanImports (length cs - length rest) cs)"

definition importCaptures :: "string \<Rightarrow> string list" where
  "importCaptures code = scanImports 0 code"

text \<open>\<^verbatim>\<open>extractImports\<close>: the body of the loop, then the loop over the matches.\<close>

definition importStep :: "string \<Rightarrow> string \<Rightarrow> string list \<Rightarrow> string list" where
  "importStep currentFile importPath imports =
     (if \<not> startsWith importPath ''.'' then imports
      else
        let resolved = resolveImport currentFile importPath
        in if resolved \<noteq> [] then setAdd resolved imports else imports)"

definition extractImports :: "string \<Rightarrow> string \<Rightarrow> string list" where
  "extractImports code currentFile = fold (importStep currentFile) (importCaptures code) []"

definition addReverseEdge :: "string \<Rightarrow> string \<Rightarrow> FileGraph \<Rightarrow> FileGraph" where
  "addReverseEdge f imp graph =
     graph\<lparr>reverseEdges := (reverseEdges graph)
       (imp \<mapsto> setAdd f (case reverseEdges graph imp of None \<Rightarrow> [] | Some s \<Rightarrow> s))\<rparr>"

text \<open>
  The loop of \<^verbatim>\<open>buildDependencyGraph\<close>. The file system is a partial map from the
  file's path in the project to its text; a file that cannot be read ends the build.
\<close>

fun buildLoop :: "(string \<rightharpoonup> string) \<Rightarrow> string list \<Rightarrow> FileGraph \<Rightarrow> failure + FileGraph" where
  "buildLoop fs [] graph = Inr graph"
| "buildLoop fs (f # rest) graph =
     (case fs f of
        None \<Rightarrow> Inl (ReadError f)
      | Some code \<Rightarrow>
          let imports = extractImports code f;
              graph1 = graph\<lparr>edges := (edges graph)(f \<mapsto> imports)\<rparr>
          in buildLoop fs rest (fold (addReverseEdge f) imports graph1))"

definition buildDependencyGraph :: "(string \<rightharpoonup> string) \<Rightarrow> string list \<Rightarrow> failure + FileGraph" where
  "buildDependencyGraph fs files =
     buildLoop fs files \<lparr>nodes = newSet files, edges = Map.empty, reverseEdges = Map.empty\<rparr>"

text \<open>The importers and the targets that a graph records for a file.\<close>

definition importersIn :: "FileGraph \<Rightarrow> string \<Rightarrow> string set" where
  "importersIn g t = (case reverseEdges g t of None \<Rightarrow> {} | Some s \<Rightarrow> set s)"

definition targetsIn :: "FileGraph \<Rightarrow> string \<Rightarrow> string set" where
  "targetsIn g f = (case edges g f of None \<Rightarrow> {} | Some s \<Rightarrow> set s)"

text \<open>
  What the loop of \<^verbatim>\<open>buildDependencyGraph\<close> keeps true: every file with a forward
  entry is one of the files \<open>F\<close>, the entry is what \<open>extractImports\<close> reads in
  the file's text, and the reverse entries mirror the forward ones.
\<close>

definition graphInv :: "(string \<rightharpoonup> string) \<Rightarrow> string set \<Rightarrow> FileGraph \<Rightarrow> bool" where
  "graphInv fs F g =
     ((\<forall>f ts. edges g f = Some ts \<longrightarrow>
          f \<in> F \<and> (\<exists>code. fs f = Some code \<and> ts = extractImports code f)) \<and>
      (\<forall>t f. f \<in> importersIn g t \<longleftrightarrow> t \<in> targetsIn g f))"

text \<open>
  A graph whose reverse entries are sets of nodes that do import the file they are
  listed under. \<open>buildDependencyGraph\<close> builds such graphs.
\<close>

definition wellFormed :: "FileGraph \<Rightarrow> bool" where
  "wellFormed g =
     (distinct (nodes g) \<and>
      (\<forall>t is. reverseEdges g t = Some is \<longrightarrow>
         distinct is \<and>
         (\<forall>f \<in> set is. f \<in> set (nodes g) \<and> (\<exists>ts. edges g f = Some ts \<and> t \<in> set ts))))"


text \<open>
  Three projects: one file that imports a file outside the project and a package; two
  files of which the first imports the second; and the four files of the repository's
  worked example of the ranking, in which \<^verbatim>\<open>routes.ts\<close> imports \<^verbatim>\<open>service.ts\<close> and
  \<^verbatim>\<open>logger.ts\<close>, and \<^verbatim>\<open>service.ts\<close> imports \<^verbatim>\<open>user.ts\<close>. Then the graphs built from
  them, and the graph of two files that import each other.
\<close>

definition oneFileProject :: "string \<rightharpoonup> string" where
  "oneFileProject =
     [''a.ts'' \<mapsto> ''import { b } from './b';\<newline>import React from 'react';\<newline>'']"


definition exampleFiles :: "string list" where
  "exampleFiles =
     [''src/api/routes.ts'', ''src/auth/service.ts'', ''src/utils/logger.ts'',
      ''src/models/user.ts'']"

definition exampleProject :: "string \<rightharpoonup> string" where
  "exampleProject =
     [''src/api/routes.ts'' \<mapsto>
        ''import { AuthService } from '../auth/service';\<newline>import { logger } from '../utils/logger';\<newline>'',
      ''src/auth/service.ts'' \<mapsto> ''import { User } from '../models/user';\<newline>'',
      ''src/utils/logger.ts'' \<mapsto> ''export const logger = console;\<newline>'',
      ''src/models/user.ts'' \<mapsto> ''export interface User { id: string }\<newline>'']"

definition exampleGraph :: FileGraph where
  "exampleGraph =
     \<lparr>nodes = exampleFiles,
      edges =
        [''src/api/routes.ts'' \<mapsto> [''src/auth/service.ts'', ''src/utils/logger.ts''],
         ''src/auth/service.ts'' \<mapsto> [''src/models/user.ts''],
         ''src/utils/logger.ts'' \<mapsto> [],
         ''src/models/user.ts'' \<mapsto> []],
      reverseEdges =
        [''src/auth/service.ts'' \<mapsto> [''src/api/routes.ts''],
         ''src/utils/logger.ts'' \<mapsto> [''src/api/routes.ts''],
         ''src/models/user.ts'' \<mapsto> [''src/auth/service.ts'']]\<rparr>"

definition oneFileGraph :: FileGraph where
  "oneFileGraph =
     \<lparr>nodes = [''a.ts''], edges = [''a.ts'' \<mapsto> [''b.ts'']],
      reverseEdges = [''b.ts'' \<mapsto> [''a.ts'']]\<rparr>"

definition twoFileGraph :: FileGraph where
  "twoFileGraph =
     \<lparr>nodes = [''a.ts'', ''b.ts''], edges = [''a.ts'' \<mapsto> [''b.ts''], ''b.ts'' \<mapsto> []],
      reverseEdges = [''b.ts'' \<mapsto> [''a.ts'']]\<rparr>"


section \<open>Ranking (\<^verbatim>\<open>src/context/ranker.ts\<close>)\<close>

type_synonym scoreMap = "string \<rightharpoonup> number"

definition getScore :: "scoreMap \<Rightarrow> string \<Rightarrow> number" where
  \<comment> \<open>\<^verbatim>\<open>scores.get(k) ?? 0\<close>\<close>
  "getScore scores k = (case scores k of None \<Rightarrow> Fin 0 | Some x \<Rightarrow> x)"

definition initScores :: "string list \<Rightarrow> scoreMap" where
  "initScores ns =
     fold (\<lambda>node scores. scores(node \<mapsto> ndiv (Fin 1) (Fin (real (length ns))))) ns Map.empty"

definition boostSeeds :: "real \<Rightarrow> string list \<Rightarrow> scoreMap \<Rightarrow> scoreMap" where
  "boostSeeds boost seedFiles scores =
     fold (\<lambda>seed sc. sc(seed \<mapsto> nadd (getScore sc seed) (Fin boost))) seedFiles scores"

definition importerOutDegree :: "FileGraph \<Rightarrow> string \<Rightarrow> nat" where
  \<comment> \<open>\<^verbatim>\<open>graph.edges.get(importer)?.size ?? 1\<close>\<close>
  "importerOutDegree graph importer =
     (case edges graph importer of None \<Rightarrow> 1 | Some s \<Rightarrow> length s)"

definition importersOf :: "FileGraph \<Rightarrow> string \<Rightarrow> string list" where
  \<comment> \<open>\<^verbatim>\<open>graph.reverseEdges.get(node) ?? new Set()\<close>\<close>
  "importersOf graph node = (case reverseEdges graph node of None \<Rightarrow> [] | Some s \<Rightarrow> s)"

definition nodeScore :: "FileGraph \<Rightarrow> real \<Rightarrow> scoreMap \<Rightarrow> string \<Rightarrow> number" where
  "nodeScore graph damping scores node =
     fold (\<lambda>importer score.
             nadd score
               (nmul (Fin damping)
                  (ndiv (getScore scores importer)
                        (Fin (real (importerOutDegree graph importer))))))
          (importersOf graph node)
          (ndiv (Fin (1 - damping)) (Fin (real (length (nodes graph)))))"

text \<open>
  One round: \<^verbatim>\<open>newScores\<close> is filled from the old scores for every node, then
  written over \<^verbatim>\<open>scores\<close>.
\<close>

definition newScores :: "FileGraph \<Rightarrow> real \<Rightarrow> scoreMap \<Rightarrow> (string \<times> number) list" where
  "newScores graph damping scores =
     map (\<lambda>node. (node, nodeScore graph damping scores node)) (nodes graph)"

definition rankRound :: "FileGraph \<Rightarrow> real \<Rightarrow> scoreMap \<Rightarrow> scoreMap" where
  "rankRound graph damping scores =
     fold (\<lambda>(node, score) sc. sc(node \<mapsto> score)) (newScores graph damping scores) scores"

text \<open>
  \<^verbatim>\<open>rankFiles\<close>, with the amount added to a seed (the literal \<^verbatim>\<open>0.5\<close> of the
  source) as the parameter \<open>boost\<close> of \<open>rankFilesBoost\<close>.
\<close>

definition rankFilesBoost ::
  "real \<Rightarrow> FileGraph \<Rightarrow> string list \<Rightarrow> real \<Rightarrow> nat \<Rightarrow> scoreMap" where
  "rankFilesBoost boost graph seedFiles damping iterations =
     ((rankRound graph damping) ^^ iterations)
       (boostSeeds boost seedFiles (initScores (nodes graph)))"

definition rankFiles :: "FileGraph \<Rightarrow> string list \<Rightarrow> real \<Rightarrow> nat \<Rightarrow> scoreMap" where
  "rankFiles graph seedFiles damping iterations =
     rankFilesBoost (1 / 2) graph seedFiles damping iterations"


text \<open>
  The real number a score stands for, the scores as a function of the file, and the
  round of \<open>rankRound\<close> on such functions.
\<close>

definition numVal :: "number \<Rightarrow> real" where
  "numVal x = (case x of Fin r \<Rightarrow> r | NonFinite \<Rightarrow> 0)"

definition scoreOf :: "scoreMap \<Rightarrow> string \<Rightarrow> real" where
  "scoreOf scores k = numVal (getScore scores k)"

definition finiteMap :: "scoreMap \<Rightarrow> bool" where
  "finiteMap scores = (\<forall>k. getScore scores k \<noteq> NonFinite)"

definition stepR :: "FileGraph \<Rightarrow> real \<Rightarrow> (string \<Rightarrow> real) \<Rightarrow> string \<Rightarrow> real" where
  "stepR g d R v =
     (1 - d) / real (length (nodes g)) +
     (\<Sum>u \<leftarrow> importersOf g v. d * (R u / real (importerOutDegree g u)))"

definition roundR :: "FileGraph \<Rightarrow> real \<Rightarrow> (string \<Rightarrow> real) \<Rightarrow> string \<Rightarrow> real" where
  "roundR g d R k = (if k \<in> set (nodes g) then stepR g d R k else R k)"

text \<open>No file that is listed as an importer has an empty set of imports.\<close>

definition importersImport :: "FileGraph \<Rightarrow> bool" where
  "importersImport g = (\<forall>v. \<forall>u \<in> set (importersOf g v). importerOutDegree g u \<noteq> 0)"

definition defaultDamping :: real where
  "defaultDamping = 85 / 100"

definition defaultIterations :: nat where
  "defaultIterations = 20"

section \<open>Semantic index (\<^verbatim>\<open>src/context/embeddings.ts\<close>)\<close>

record CodeChunk =
  cfile :: string  \<comment> \<open>the field \<^verbatim>\<open>file\<close>\<close>
  startLine :: nat
  endLine :: nat
  content :: string
  embedding :: "real list option"

subsection \<open>Chunking\<close>

text \<open>
  The test \<^verbatim>\<open>line.match(/^(export |async )?(function|class|interface)/)\<close>: the
  line begins with one of the three keywords, after an optional \<^verbatim>\<open>export \<close> or
  \<^verbatim>\<open>async \<close>.
\<close>

definition declKeyword :: "string \<Rightarrow> bool" where
  "declKeyword s =
     (startsWith s ''function'' \<or> startsWith s ''class'' \<or> startsWith s ''interface'')"

definition matchesDeclaration :: "string \<Rightarrow> bool" where
  "matchesDeclaration line =
     ((startsWith line ''export '' \<and> declKeyword (drop 7 line)) \<or>
      (startsWith line ''async '' \<and> declKeyword (drop 6 line)) \<or>
      declKeyword line)"

text \<open>
  The loop of \<^verbatim>\<open>chunkCode\<close> over the lines from index \<open>i\<close> on. The state is
  \<open>(chunks, currentChunk, startLine, currentLength)\<close>.
\<close>

type_synonym chunkState = "CodeChunk list \<times> string list \<times> nat \<times> nat"

fun chunkLoop :: "string \<Rightarrow> int \<Rightarrow> nat \<Rightarrow> string list \<Rightarrow> chunkState \<Rightarrow> chunkState" where
  "chunkLoop f chunkSize i [] st = st"
| "chunkLoop f chunkSize i (line # rest) (chunks, currentChunk, start, currentLength) =
     (let currentChunk' = currentChunk @ [line];
          currentLength' = currentLength + length line;
          isBreakpoint = (matchesDeclaration line \<or> chunkSize \<le> int currentLength')
      in if isBreakpoint \<and> length currentChunk' > 5
         then chunkLoop f chunkSize (i + 1) rest
                (chunks @ [\<lparr>cfile = f, startLine = start, endLine = i,
                            content = join [newline] currentChunk', embedding = None\<rparr>],
                 [], i + 1, 0)
         else chunkLoop f chunkSize (i + 1) rest
                (chunks, currentChunk', start, currentLength'))"

definition chunkCode :: "string \<Rightarrow> string \<Rightarrow> int \<Rightarrow> CodeChunk list" where
  "chunkCode f code chunkSize =
     (let lines = split newline code in
      case chunkLoop f chunkSize 0 lines ([], [], 0, 0) of
        (chunks, currentChunk, start, currentLength) \<Rightarrow>
          if length currentChunk > 0
          then chunks @ [\<lparr>cfile = f, startLine = start, endLine = length lines - 1,
                           content = join [newline] currentChunk, embedding = None\<rparr>]
          else chunks)"

text \<open>A chunk that holds at least six lines, on the lines its span names.\<close>

definition sixLines :: "CodeChunk \<Rightarrow> bool" where
  "sixLines c =
     (6 \<le> length (split newline (content c)) \<and>
      endLine c + 1 = startLine c + length (split newline (content c)))"

subsection \<open>Search\<close>

text \<open>
  The loop of \<^verbatim>\<open>cosineSimilarity\<close> runs over the indices of \<open>a\<close>; where \<open>b\<close> is
  shorter, \<^verbatim>\<open>b[i]\<close> is \<^verbatim>\<open>undefined\<close> and the products with it are \<^verbatim>\<open>NaN\<close>.
  The state is \<open>(dot, normA, normB)\<close>.
\<close>

fun cosineLoop :: "real list \<Rightarrow> real list \<Rightarrow> number \<times> number \<times> number \<Rightarrow> number \<times> number \<times> number" where
  "cosineLoop [] b acc = acc"
| "cosineLoop (x # a) [] (dot, normA, normB) =
     cosineLoop a [] (nadd dot NonFinite, nadd normA (Fin (x * x)), nadd normB NonFinite)"
| "cosineLoop (x # a) (y # b) (dot, normA, normB) =
     cosineLoop a b (nadd dot (Fin (x * y)), nadd normA (Fin (x * x)), nadd normB (Fin (y * y)))"

definition cosineSimilarity :: "real list \<Rightarrow> real list \<Rightarrow> number" where
  "cosineSimilarity a b =
     (case cosineLoop a b (Fin 0, Fin 0, Fin 0) of
        (dot, normA, normB) \<Rightarrow> ndiv dot (nmul (nsqrt normA) (nsqrt normB)))"

text \<open>
  \<^verbatim>\<open>cosineSimilarity(queryEmbedding, chunk.embedding!)\<close>: with no embedding on the
  chunk the first \<^verbatim>\<open>b[i]\<close> throws; an empty query never reads it.
\<close>

definition chunkScore :: "real list \<Rightarrow> CodeChunk \<Rightarrow> failure + number" where
  "chunkScore queryEmbedding chunk =
     (case embedding chunk of
        Some e \<Rightarrow> Inr (cosineSimilarity queryEmbedding e)
      | None \<Rightarrow> (if queryEmbedding = [] then Inr NonFinite else Inl TypeError))"

fun scoreAll :: "real list \<Rightarrow> CodeChunk list \<Rightarrow> failure + (CodeChunk \<times> number) list" where
  "scoreAll q [] = Inr []"
| "scoreAll q (c # cs) =
     (case chunkScore q c of
        Inl e \<Rightarrow> Inl e
      | Inr s \<Rightarrow> (case scoreAll q cs of Inl e \<Rightarrow> Inl e | Inr rest \<Rightarrow> Inr ((c, s) # rest)))"

text \<open>
  \<^verbatim>\<open>scored.sort((a, b) => b.score - a.score)\<close>. The sort is stable and orders by
  the comparator when the comparator is consistent, as it is on finite scores: an
  element goes behind the elements it does not have to precede. A similarity that is
  not finite is \<^verbatim>\<open>NaN\<close>, the difference with it is \<^verbatim>\<open>NaN\<close>, and the sort reads
  that as 0. When the finite scores are all equal the comparator is then 0 throughout
  and the list stays as it is; when two of them differ the comparator is not consistent
  and the language leaves the order to the engine.
\<close>

fun finiteScores :: "(CodeChunk \<times> number) list \<Rightarrow> (CodeChunk \<times> real) list option" where
  "finiteScores [] = Some []"
| "finiteScores ((c, Fin s) # rest) =
     (case finiteScores rest of None \<Rightarrow> None | Some r \<Rightarrow> Some ((c, s) # r))"
| "finiteScores ((c, NonFinite) # rest) = None"

fun finiteValues :: "(CodeChunk \<times> number) list \<Rightarrow> real list" where
  "finiteValues [] = []"
| "finiteValues ((c, Fin s) # rest) = s # finiteValues rest"
| "finiteValues ((c, NonFinite) # rest) = finiteValues rest"

definition allEqual :: "real list \<Rightarrow> bool" where
  "allEqual xs = (case xs of [] \<Rightarrow> True | x # rest \<Rightarrow> list_all (\<lambda>y. y = x) rest)"

definition compareScore :: "CodeChunk \<times> real \<Rightarrow> CodeChunk \<times> real \<Rightarrow> real" where
  "compareScore a b = snd b - snd a"

fun insertSorted :: "('a \<Rightarrow> 'a \<Rightarrow> real) \<Rightarrow> 'a \<Rightarrow> 'a list \<Rightarrow> 'a list" where
  "insertSorted cmp x [] = [x]"
| "insertSorted cmp x (y # ys) =
     (if cmp x y \<le> 0 then x # y # ys else y # insertSorted cmp x ys)"

fun stableSort :: "('a \<Rightarrow> 'a \<Rightarrow> real) \<Rightarrow> 'a list \<Rightarrow> 'a list" where
  "stableSort cmp [] = []"
| "stableSort cmp (x # xs) = insertSorted cmp x (stableSort cmp xs)"

text \<open>\<^verbatim>\<open>xs.slice(0, k)\<close>: a negative \<open>k\<close> counts from the end.\<close>

definition slice0 :: "int \<Rightarrow> 'a list \<Rightarrow> 'a list" where
  "slice0 k xs = (if k < 0 then take (nat (int (length xs) + k)) xs else take (nat k) xs)"

text \<open>
  \<^verbatim>\<open>searchCode\<close>, from the embedding that the provider returns for the query.
\<close>

definition searchCode :: "real list \<Rightarrow> CodeChunk list \<Rightarrow> int \<Rightarrow> failure + CodeChunk list" where
  "searchCode queryEmbedding chunks topK =
     (case scoreAll queryEmbedding chunks of
        Inl e \<Rightarrow> Inl e
      | Inr scored \<Rightarrow>
          (case finiteScores scored of
             Some fin \<Rightarrow> Inr (map fst (slice0 topK (stableSort compareScore fin)))
           | None \<Rightarrow>
               if allEqual (finiteValues scored) then Inr (map fst (slice0 topK scored))
               else Inl SortOrderUnspecified))"

text \<open>
  The order the specification asks of a result list: similarity descending, and among
  equal similarities \<open>(file, startLine)\<close> ascending.
\<close>

definition specBefore :: "CodeChunk \<times> real \<Rightarrow> CodeChunk \<times> real \<Rightarrow> bool" where
  "specBefore a b =
     (snd b < snd a \<or>
      (snd a = snd b \<and>
       (cfile (fst a) < cfile (fst b) \<or>
        (cfile (fst a) = cfile (fst b) \<and> startLine (fst a) \<le> startLine (fst b)))))"

text \<open>The similarity of a chunk to the query, as a real number.\<close>

definition similarity :: "real list \<Rightarrow> CodeChunk \<Rightarrow> real" where
  "similarity q c = numVal (cosineSimilarity q (the (embedding c)))"

section \<open>Context assembly (\<^verbatim>\<open>src/context/assembler.ts\<close>)\<close>

record ContextConfig =
  repoMapTokens :: int
  relevantFileTokens :: int
  searchResultTokens :: int
  maxTotalTokens :: int

text \<open>\<^verbatim>\<open>estimateTokens\<close>, four characters to a token, rounded up.\<close>

definition estimateTokens :: "string \<Rightarrow> nat" where
  "estimateTokens text = (length text + 3) div 4"

text \<open>The two templates for a section of the output.\<close>

definition fileSection :: "string \<times> string \<Rightarrow> string" where
  "fileSection fc =
     ''\<newline>### '' @ fst fc @ ''\<newline>```\<newline>'' @ snd fc @ ''\<newline>```''"

definition chunkSection :: "CodeChunk \<Rightarrow> string" where
  "chunkSection chunk =
     ''\<newline>### '' @ cfile chunk @ '':'' @ showNat (startLine chunk) @ ''-'' @
     showNat (endLine chunk) @ ''\<newline>```\<newline>'' @ content chunk @ ''\<newline>```''"

text \<open>
  The loop that phases 2 and 3 share: a section is pushed onto \<^verbatim>\<open>parts\<close> when
  \<^verbatim>\<open>totalTokens + tokens <= config.maxTotalTokens\<close>, and passed over otherwise. The
  state is \<open>(parts, totalTokens)\<close>.
\<close>

fun appendSections ::
  "(string \<Rightarrow> nat) \<Rightarrow> int \<Rightarrow> string list \<Rightarrow> string list \<times> nat \<Rightarrow> string list \<times> nat" where
  "appendSections countTokens maxTotal [] st = st"
| "appendSections countTokens maxTotal (sec # rest) (parts, totalTokens) =
     (let tokens = countTokens sec
      in if int (totalTokens + tokens) \<le> maxTotal
         then appendSections countTokens maxTotal rest (parts @ [sec], totalTokens + tokens)
         else appendSections countTokens maxTotal rest (parts, totalTokens))"

text \<open>
  Phase 1. \<^verbatim>\<open>countTokens\<close> (a tokenizer) and \<^verbatim>\<open>truncateToTokens\<close> (not defined
  in the repository) are parameters; \<open>mapText\<close> is what \<^verbatim>\<open>formatRepoMap\<close> returned.
\<close>

definition phase1 ::
  "(string \<Rightarrow> nat) \<Rightarrow> (string \<Rightarrow> int \<Rightarrow> string) \<Rightarrow> ContextConfig \<Rightarrow> string
     \<Rightarrow> string list \<times> nat" where
  "phase1 countTokens truncateToTokens config mapText =
     (let mapText' = (if int (countTokens mapText) > repoMapTokens config
                      then truncateToTokens mapText (repoMapTokens config) else mapText)
      in ([''## Repository Structure\<newline>'' @ mapText'], countTokens mapText'))"

text \<open>
  Phase 2, over the files that \<^verbatim>\<open>selectContextForTask\<close> returned, each with the
  content read for it.
\<close>

definition phase2 ::
  "(string \<Rightarrow> nat) \<Rightarrow> ContextConfig \<Rightarrow> (string \<times> string) list \<Rightarrow> string list \<times> nat
     \<Rightarrow> string list \<times> nat" where
  "phase2 countTokens config relevantFiles st =
     (if length relevantFiles > 0
      then appendSections countTokens (maxTotalTokens config) (map fileSection relevantFiles)
             (fst st @ [''\<newline>## Relevant Files''], snd st)
      else st)"

text \<open>Phase 3, over the chunks that \<^verbatim>\<open>index.search(task, 10)\<close> returned.\<close>

definition phase3 ::
  "(string \<Rightarrow> nat) \<Rightarrow> ContextConfig \<Rightarrow> CodeChunk list \<Rightarrow> string list \<times> nat
     \<Rightarrow> string list \<times> nat" where
  "phase3 countTokens config searchResults st =
     (if length searchResults > 0 \<and> int (snd st) < maxTotalTokens config
      then appendSections countTokens (maxTotalTokens config) (map chunkSection searchResults)
             (fst st @ [''\<newline>## Related Code''], snd st)
      else st)"

definition assembleParts ::
  "(string \<Rightarrow> nat) \<Rightarrow> (string \<Rightarrow> int \<Rightarrow> string) \<Rightarrow> ContextConfig \<Rightarrow> string
     \<Rightarrow> (string \<times> string) list \<Rightarrow> CodeChunk list \<Rightarrow> string list \<times> nat" where
  "assembleParts countTokens truncateToTokens config mapText relevantFiles searchResults =
     phase3 countTokens config searchResults
       (phase2 countTokens config relevantFiles
          (phase1 countTokens truncateToTokens config mapText))"

definition assembleContext ::
  "(string \<Rightarrow> nat) \<Rightarrow> (string \<Rightarrow> int \<Rightarrow> string) \<Rightarrow> ContextConfig \<Rightarrow> string
     \<Rightarrow> (string \<times> string) list \<Rightarrow> CodeChunk list \<Rightarrow> string" where
  "assembleContext countTokens truncateToTokens config mapText relevantFiles searchResults =
     join [newline]
       (fst (assembleParts countTokens truncateToTokens config mapText relevantFiles searchResults))"

text \<open>Two line ranges of one file that share a line.\<close>

definition overlaps :: "CodeChunk \<Rightarrow> CodeChunk \<Rightarrow> bool" where
  "overlaps a b =
     (cfile a = cfile b \<and> startLine a \<le> endLine b \<and> startLine b \<le> endLine a)"

text \<open>
  Modelled from the spec: \<^verbatim>\<open>truncateToTokens\<close> is called by \<^verbatim>\<open>assembleContext\<close>
  and defined nowhere in the repository. The specification has the map cut down until
  it fits the cap; under the estimate of four characters to a token that is the text cut
  to four characters for each token allowed.
\<close>

definition truncateToTokens :: "string \<Rightarrow> int \<Rightarrow> string" where
  "truncateToTokens text n = take (nat (4 * n)) text"

text \<open>
  The examples: a small configuration, a map text, a file content, two chunks of
  \<^verbatim>\<open>a.ts\<close> and a chunk of \<^verbatim>\<open>b.ts\<close>.
\<close>

definition smallConfig :: ContextConfig where
  "smallConfig =
     \<lparr>repoMapTokens = 10, relevantFileTokens = 15, searchResultTokens = 10,
      maxTotalTokens = 30\<rparr>"

definition mapText40 :: string where
  "mapText40 = replicate 40 (CHR ''m'')"

definition content60 :: string where
  "content60 = replicate 60 (CHR ''x'')"

definition chunkA :: CodeChunk where
  "chunkA = \<lparr>cfile = ''a.ts'', startLine = 0, endLine = 5, content = ''let a'', embedding = Some [1, 0]\<rparr>"

definition chunkB :: CodeChunk where
  "chunkB = \<lparr>cfile = ''a.ts'', startLine = 3, endLine = 8, content = ''let b'', embedding = Some [1, 0]\<rparr>"

definition chunkOfB :: CodeChunk where
  "chunkOfB = \<lparr>cfile = ''b.ts'', startLine = 0, endLine = 5, content = ''let c'', embedding = Some [1, 0]\<rparr>"

section \<open>Saving and loading the index (\<^verbatim>\<open>CodeIndex\<close> in \<^verbatim>\<open>src/context/embeddings.ts\<close>)\<close>

subsection \<open>Numbers and values of the language\<close>

text \<open>
  \<^verbatim>\<open>save\<close> and \<^verbatim>\<open>load\<close> take the numbers of the embeddings through a text, and
  there the sign of a zero and the numbers that are not finite count. A number of the
  language is a finite number other than negative zero (\<open>Num 0\<close> is positive zero),
  negative zero, \<^verbatim>\<open>NaN\<close>, or one of the two infinities. Finite numbers are real
  numbers, rounding aside, as everywhere in this development.
\<close>

datatype jsnumber = Num real | NegZero | NaN | PosInfinity | NegInfinity

text \<open>
  The values that \<^verbatim>\<open>index\<close> stores and that \<^verbatim>\<open>JSON.parse\<close> returns. An object is
  the list of its own properties in the order of their creation.
\<close>

datatype jsval =
    VNull
  | VBool bool
  | VNumber jsnumber
  | VString string
  | VArray "jsval list"
  | VObject "(string \<times> jsval) list"

subsection \<open>\<^verbatim>\<open>JSON.stringify\<close> and \<^verbatim>\<open>JSON.parse\<close>\<close>

text \<open>
  \<^verbatim>\<open>JSON.stringify\<close> and \<^verbatim>\<open>JSON.parse\<close> belong to the language; they are written
  here after ECMA-262 (\<^verbatim>\<open>SerializeJSONProperty\<close>, \<^verbatim>\<open>SerializeJSONArray\<close>,
  \<^verbatim>\<open>SerializeJSONObject\<close>, \<^verbatim>\<open>JSON.parse\<close>). A JSON text is given by its document:
  \<^verbatim>\<open>null\<close>, a truth value, a number, a string, an array, or an object with its
  members in the order of the text. A number of a document is finite; the text \<^verbatim>\<open>-0\<close>
  is the document \<open>JNegZero\<close>. The characters are left out: \<^verbatim>\<open>Number::toString\<close>
  writes a finite number with digits that read back as that number, and
  \<^verbatim>\<open>QuoteJSONString\<close> writes a string with escapes that \<^verbatim>\<open>JSON.parse\<close> undoes.
\<close>

datatype json =
    JNull
  | JBool bool
  | JNumber real
  | JNegZero
  | JString string
  | JArray "json list"
  | JObject "(string \<times> json) list"

text \<open>
  \<^verbatim>\<open>SerializeJSONProperty\<close> on a number: a number that is not finite is written
  \<^verbatim>\<open>null\<close>; a finite one is written by \<^verbatim>\<open>Number::toString\<close>, which writes both
  zeros as \<^verbatim>\<open>0\<close>.
\<close>

fun stringifyNumber :: "jsnumber \<Rightarrow> json" where
  "stringifyNumber (Num r) = JNumber r"
| "stringifyNumber NegZero = JNumber 0"
| "stringifyNumber NaN = JNull"
| "stringifyNumber PosInfinity = JNull"
| "stringifyNumber NegInfinity = JNull"

primrec stringifyValue :: "jsval \<Rightarrow> json" where
  "stringifyValue VNull = JNull"
| "stringifyValue (VBool b) = JBool b"
| "stringifyValue (VNumber n) = stringifyNumber n"
| "stringifyValue (VString s) = JString s"
| "stringifyValue (VArray vs) = JArray (map stringifyValue vs)"
| "stringifyValue (VObject ps) = JObject (map (map_prod id stringifyValue) ps)"

primrec parseValue :: "json \<Rightarrow> jsval" where
  "parseValue JNull = VNull"
| "parseValue (JBool b) = VBool b"
| "parseValue (JNumber r) = VNumber (Num r)"
| "parseValue JNegZero = VNumber NegZero"
| "parseValue (JString s) = VString s"
| "parseValue (JArray js) = VArray (map parseValue js)"
| "parseValue (JObject ms) = VObject (map (map_prod id parseValue) ms)"

text \<open>What a file holds: a JSON text, or a text that is none.\<close>

datatype fileContent = JsonText json | NotJson

definition jsonStringify :: "jsval \<Rightarrow> fileContent" where
  "jsonStringify v = JsonText (stringifyValue v)"

definition jsonParse :: "fileContent \<Rightarrow> failure + jsval" where
  "jsonParse t = (case t of JsonText d \<Rightarrow> Inr (parseValue d) | NotJson \<Rightarrow> Inl SyntaxError)"

subsection \<open>The chunks of a built index\<close>

text \<open>
  \<^verbatim>\<open>index\<close> sets \<^verbatim>\<open>this.chunks\<close> to what \<^verbatim>\<open>embedChunks\<close> returns: every chunk
  of \<^verbatim>\<open>chunkCode\<close> with the array of numbers that the provider gave for its content,
  \<^verbatim>\<open>{ ...batch[j], embedding: response.data[j].embedding }\<close>.
\<close>

record StoredChunk =
  storedFile :: string
  storedStartLine :: nat
  storedEndLine :: nat
  storedContent :: string
  storedEmbedding :: "jsnumber list"

definition withEmbedding :: "CodeChunk \<Rightarrow> jsnumber list \<Rightarrow> StoredChunk" where
  "withEmbedding c e =
     \<lparr>storedFile = cfile c, storedStartLine = startLine c, storedEndLine = endLine c,
      storedContent = content c, storedEmbedding = e\<rparr>"

text \<open>The object that such a chunk is, and the array of them.\<close>

definition chunkObject :: "StoredChunk \<Rightarrow> jsval" where
  "chunkObject c =
     VObject [(''file'', VString (storedFile c)),
              (''startLine'', VNumber (Num (real (storedStartLine c)))),
              (''endLine'', VNumber (Num (real (storedEndLine c)))),
              (''content'', VString (storedContent c)),
              (''embedding'', VArray (map VNumber (storedEmbedding c)))]"

definition chunksValue :: "StoredChunk list \<Rightarrow> jsval" where
  "chunksValue cs = VArray (map chunkObject cs)"

text \<open>Reading a value as such an array; \<open>None\<close> when it is none.\<close>

fun asString :: "jsval \<Rightarrow> string option" where
  "asString (VString s) = Some s"
| "asString _ = None"

fun asNat :: "jsval \<Rightarrow> nat option" where
  "asNat (VNumber (Num r)) = (if 0 \<le> r \<and> r = of_int \<lfloor>r\<rfloor> then Some (nat \<lfloor>r\<rfloor>) else None)"
| "asNat _ = None"

fun asNumber :: "jsval \<Rightarrow> jsnumber option" where
  "asNumber (VNumber n) = Some n"
| "asNumber _ = None"

fun allSome :: "'a option list \<Rightarrow> 'a list option" where
  "allSome [] = Some []"
| "allSome (None # xs) = None"
| "allSome (Some x # xs) = (case allSome xs of None \<Rightarrow> None | Some ys \<Rightarrow> Some (x # ys))"

fun asNumbers :: "jsval \<Rightarrow> jsnumber list option" where
  "asNumbers (VArray vs) = allSome (map asNumber vs)"
| "asNumbers _ = None"

definition chunkKeys :: "string list" where
  "chunkKeys = [''file'', ''startLine'', ''endLine'', ''content'', ''embedding'']"

definition asChunk :: "jsval \<Rightarrow> StoredChunk option" where
  "asChunk v =
     (case v of
        VObject ps \<Rightarrow>
          if map fst ps = chunkKeys then
            (case (asString (snd (ps ! 0)), asNat (snd (ps ! 1)), asNat (snd (ps ! 2)),
                   asString (snd (ps ! 3)), asNumbers (snd (ps ! 4))) of
               (Some f, Some s, Some e, Some c, Some x) \<Rightarrow>
                 Some \<lparr>storedFile = f, storedStartLine = s, storedEndLine = e,
                       storedContent = c, storedEmbedding = x\<rparr>
             | _ \<Rightarrow> None)
          else None
      | _ \<Rightarrow> None)"

fun asChunks :: "jsval \<Rightarrow> StoredChunk list option" where
  "asChunks (VArray vs) = allSome (map asChunk vs)"
| "asChunks _ = None"

subsection \<open>Search on the stored chunks\<close>

text \<open>
  \<^verbatim>\<open>cosineSimilarity(queryEmbedding, chunk.embedding)\<close> on the numbers as they are
  stored. The loop reads \<^verbatim>\<open>b[i]\<close> for \<open>i\<close> below the length of \<open>a\<close>. Where these are
  finite, the sums are those of \<open>cosineSimilarity\<close> on the real numbers; a negative
  zero adds as a zero. Where one of them is \<^verbatim>\<open>NaN\<close> or infinite, \<^verbatim>\<open>normB\<close> is
  infinite or \<^verbatim>\<open>NaN\<close> and so is \<^verbatim>\<open>dot\<close>, and the quotient is \<^verbatim>\<open>NaN\<close>.
\<close>

fun isFiniteNumber :: "jsnumber \<Rightarrow> bool" where
  "isFiniteNumber (Num r) = True"
| "isFiniteNumber NegZero = True"
| "isFiniteNumber _ = False"

fun realOf :: "jsnumber \<Rightarrow> real" where
  "realOf (Num r) = r"
| "realOf _ = 0"

definition storedScore :: "real list \<Rightarrow> StoredChunk \<Rightarrow> number" where
  "storedScore queryEmbedding chunk =
     (if list_all isFiniteNumber (take (length queryEmbedding) (storedEmbedding chunk))
      then cosineSimilarity queryEmbedding (map realOf (storedEmbedding chunk))
      else NonFinite)"

text \<open>
  \<^verbatim>\<open>searchCode\<close> on the stored chunks, from the embedding that the provider returns
  for the query: the scores, the sort and the slice are those of \<open>searchCode\<close>; the
  chunks of the result are chunks of the list, with their numbers as they are stored.
\<close>

definition finiteStored :: "(StoredChunk \<times> number) list \<Rightarrow> bool" where
  "finiteStored scored = list_all (\<lambda>p. snd p \<noteq> NonFinite) scored"

definition compareStored :: "StoredChunk \<times> number \<Rightarrow> StoredChunk \<times> number \<Rightarrow> real" where
  "compareStored a b = numVal (snd b) - numVal (snd a)"

definition searchStored :: "real list \<Rightarrow> StoredChunk list \<Rightarrow> int \<Rightarrow> failure + StoredChunk list" where
  "searchStored queryEmbedding chunks topK =
     (let scored = map (\<lambda>chunk. (chunk, storedScore queryEmbedding chunk)) chunks in
      if finiteStored scored then Inr (map fst (slice0 topK (stableSort compareStored scored)))
      else if allEqual (map numVal (filter (\<lambda>s. s \<noteq> NonFinite) (map snd scored)))
      then Inr (map fst (slice0 topK scored))
      else Inl SortOrderUnspecified)"

subsection \<open>The class \<^verbatim>\<open>CodeIndex\<close>\<close>

text \<open>
  The state of an index is the value of \<^verbatim>\<open>this.chunks\<close>. Around it are the files,
  the paths that \<^verbatim>\<open>fs.writeFile\<close> can write, and the calls made to the embedding
  provider so far, each by the text it was given.
\<close>

record CodeIndex =
  indexChunks :: jsval  \<comment> \<open>the field \<^verbatim>\<open>chunks\<close>\<close>

record World =
  fileSystem :: "string \<rightharpoonup> fileContent"
  writable :: "string \<Rightarrow> bool"
  providerCalls :: "string list"

text \<open>\<^verbatim>\<open>new CodeIndex()\<close>: \<^verbatim>\<open>chunks = []\<close>.\<close>

definition newCodeIndex :: CodeIndex where
  "newCodeIndex = \<lparr>indexChunks = VArray []\<rparr>"

text \<open>\<^verbatim>\<open>await fs.writeFile(filePath, JSON.stringify(this.chunks))\<close>.\<close>

definition save :: "string \<Rightarrow> CodeIndex \<Rightarrow> World \<Rightarrow> failure + World" where
  "save filePath idx w =
     (if writable w filePath
      then Inr (w\<lparr>fileSystem := (fileSystem w)(filePath \<mapsto> jsonStringify (indexChunks idx))\<rparr>)
      else Inl (WriteError filePath))"

text \<open>
  \<^verbatim>\<open>const data = await fs.readFile(filePath, 'utf-8'); this.chunks = JSON.parse(data)\<close>.
  The result is the index and the world after the call.
\<close>

definition load :: "string \<Rightarrow> CodeIndex \<Rightarrow> World \<Rightarrow> failure + CodeIndex \<times> World" where
  "load filePath idx w =
     (case fileSystem w filePath of
        None \<Rightarrow> Inl (ReadError filePath)
      | Some data \<Rightarrow>
          (case jsonParse data of
             Inl e \<Rightarrow> Inl e
           | Inr v \<Rightarrow> Inr (idx\<lparr>indexChunks := v\<rparr>, w)))"

text \<open>
  \<^verbatim>\<open>search(query, topK)\<close> is \<^verbatim>\<open>searchCode(query, this.chunks, topK)\<close>, which asks
  the provider for the embedding of the query, \<open>embedQuery query\<close>, and ranks the chunks.
  The class declares \<^verbatim>\<open>chunks: CodeChunk[]\<close>, and \<open>search\<close> is given for the
  values that are such an array with an embedding on every chunk, as \<^verbatim>\<open>index\<close>
  leaves them. \<^verbatim>\<open>load\<close> can bring in any value from a file written by something
  else; what the conversions of the language make of it in \<^verbatim>\<open>searchCode\<close> is not
  described here, and \<open>search\<close> is \<open>None\<close> there.
\<close>

definition search ::
  "(string \<Rightarrow> real list) \<Rightarrow> string \<Rightarrow> int \<Rightarrow> CodeIndex \<Rightarrow> World \<Rightarrow>
     ((failure + StoredChunk list) \<times> World) option" where
  "search embedQuery query topK idx w =
     (case asChunks (indexChunks idx) of
        None \<Rightarrow> None
      | Some cs \<Rightarrow>
          Some (searchStored (embedQuery query) cs topK,
                w\<lparr>providerCalls := providerCalls w @ [query]\<rparr>))"

text \<open>
  The view of a stored chunk in which the numbers of the embedding are real numbers.
\<close>

definition chunkOf :: "StoredChunk \<Rightarrow> CodeChunk" where
  "chunkOf c =
     \<lparr>cfile = storedFile c, startLine = storedStartLine c, endLine = storedEndLine c,
      content = storedContent c, embedding = Some (map realOf (storedEmbedding c))\<rparr>"

text \<open>A number that is finite and not negative zero.\<close>

fun plainNumber :: "jsnumber \<Rightarrow> bool" where
  "plainNumber (Num r) = True"
| "plainNumber _ = False"

text \<open>Negative zeros made positive.\<close>

fun unsigned :: "jsnumber \<Rightarrow> jsnumber" where
  "unsigned NegZero = Num 0"
| "unsigned x = x"

definition unsignedChunk :: "StoredChunk \<Rightarrow> StoredChunk" where
  "unsignedChunk c = c\<lparr>storedEmbedding := map unsigned (storedEmbedding c)\<rparr>"

subsection \<open>Two small indexes\<close>

text \<open>A world with no file, in which every path can be written.\<close>

definition emptyWorld :: World where
  "emptyWorld = \<lparr>fileSystem = Map.empty, writable = (\<lambda>p. True), providerCalls = []\<rparr>"

definition plainChunks :: "StoredChunk list" where
  "plainChunks =
     [withEmbedding \<lparr>cfile = ''a.ts'', startLine = 0, endLine = 0, content = ''const a = 1;'',
                     embedding = None\<rparr> [Num 1, Num 0],
      withEmbedding \<lparr>cfile = ''b.ts'', startLine = 0, endLine = 0, content = ''const b = 2;'',
                     embedding = None\<rparr> [Num 0, Num 1]]"

definition plainIndex :: CodeIndex where
  "plainIndex = \<lparr>indexChunks = chunksValue plainChunks\<rparr>"

definition signedChunks :: "StoredChunk list" where
  "signedChunks =
     [withEmbedding \<lparr>cfile = ''a.ts'', startLine = 0, endLine = 0, content = ''const a = 1;'',
                     embedding = None\<rparr> [NegZero, Num 1]]"

definition signedIndex :: CodeIndex where
  "signedIndex = \<lparr>indexChunks = chunksValue signedChunks\<rparr>"

text \<open>A provider that answers every query with \<open>(0, 1)\<close>.\<close>

definition constantProvider :: "string \<Rightarrow> real list" where
  "constantProvider query = [0, 1]"

section \<open>Chunking: every chunk but the last holds six lines\<close>

lemma split_nonempty: "split sep s \<noteq> []"
  by (induction s) (auto split: list.splits)

lemma split_no_sep: "l \<in> set (split sep s) \<Longrightarrow> sep \<notin> set l"
proof (induction s arbitrary: l)
  case Nil
  then show ?case by simp
next
  case (Cons c cs)
  obtain h t where ht: "split sep cs = h # t"
    using split_nonempty [of sep cs] by (cases "split sep cs") auto
  from Cons ht show ?case by (auto split: if_splits)
qed

lemma split_append_line:
  "sep \<notin> set l \<Longrightarrow> split sep (l @ sep # s) = l # split sep s"
  by (induction l) (auto split: list.splits)

lemma split_plain: "sep \<notin> set l \<Longrightarrow> split sep l = [l]"
  by (induction l) (auto split: list.splits)

lemma split_join:
  "ls \<noteq> [] \<Longrightarrow> \<forall>l \<in> set ls. sep \<notin> set l \<Longrightarrow> split sep (join [sep] ls) = ls"
proof (induction "[sep]" ls rule: join.induct)
  case 1
  then show ?case by simp
next
  case (2 x)
  then show ?case by (simp add: split_plain)
next
  case (3 x y ys)
  then show ?case by (simp add: split_append_line)
qed

text \<open>
  The invariant of the loop: the chunks emitted so far hold six lines each, the lines
  collected since the last emission are those from \<open>startLine\<close> up to the current
  index, and none of them contains a line break.
\<close>

lemma chunkLoop_sixLines:
  assumes "chunkLoop f n i ls (chunks, cur, start, len) = (chunks', cur', start', len')"
    and "\<forall>c \<in> set chunks. sixLines c"
    and "\<forall>l \<in> set cur. newline \<notin> set l"
    and "\<forall>l \<in> set ls. newline \<notin> set l"
    and "start + length cur = i"
  shows "\<forall>c \<in> set chunks'. sixLines c"
  using assms
proof (induction ls arbitrary: i chunks cur start len)
  case Nil
  then show ?case by simp
next
  case (Cons line rest)
  let ?cur = "cur @ [line]"
  let ?len = "len + length line"
  show ?case
  proof (cases "(matchesDeclaration line \<or> n \<le> int ?len) \<and> length ?cur > 5")
    case True
    let ?c = "\<lparr>cfile = f, startLine = start, endLine = i,
                content = join [newline] ?cur, embedding = None\<rparr>"
    have sj: "split newline (join [newline] ?cur) = ?cur"
      using Cons.prems(3,4) by (intro split_join) auto
    have ok: "sixLines ?c"
      using True Cons.prems(5) by (simp add: sixLines_def sj)
    have "chunkLoop f n (i + 1) rest (chunks @ [?c], [], i + 1, 0) = (chunks', cur', start', len')"
      using Cons.prems(1) True by (simp add: Let_def)
    then show ?thesis
      using Cons.prems(2,4) ok by (intro Cons.IH [of "i + 1" "chunks @ [?c]" "[]" "i + 1" 0]) auto
  next
    case False
    have "chunkLoop f n (i + 1) rest (chunks, ?cur, start, ?len) = (chunks', cur', start', len')"
      using Cons.prems(1) False by (auto simp: Let_def)
    then show ?thesis
      using Cons.prems(2,3,4,5) by (intro Cons.IH [of "i + 1" chunks ?cur start ?len]) auto
  qed
qed

text \<open>
  C10. Every chunk that \<open>chunkCode\<close> returns, but possibly the last, holds at least
  six lines of the file, whichever of the two tests closed it (a declaration line or the
  size limit): its content splits into at least six lines, and they are the lines from
  \<open>startLine\<close> to \<open>endLine\<close>.
\<close>

theorem chunkCode_min_lines:
  "c \<in> set (butlast (chunkCode f code chunkSize)) \<Longrightarrow>
     6 \<le> length (split newline (content c)) \<and>
     endLine c + 1 = startLine c + length (split newline (content c))"
proof -
  assume c: "c \<in> set (butlast (chunkCode f code chunkSize))"
  obtain chunks cur start len where
    loop: "chunkLoop f chunkSize 0 (split newline code) ([], [], 0, 0) = (chunks, cur, start, len)"
    by (metis prod_cases4)
  have ok: "\<forall>c \<in> set chunks. sixLines c"
    using chunkLoop_sixLines [OF loop] by (simp add: split_no_sep)
  have "set (butlast (chunkCode f code chunkSize)) \<subseteq> set chunks"
    using loop by (auto simp: chunkCode_def Let_def butlast_append dest: in_set_butlastD)
  with c ok show ?thesis by (auto simp: sixLines_def)
qed

text \<open>
  A file of seven lines whose sixth line opens a function: the first chunk is closed at
  that line, with six lines, and is followed by the chunk of the last line.
\<close>

theorem chunkCode_min_lines_witness:
  "hd (chunkCode ''a.ts'' ''a\<newline>b\<newline>c\<newline>d\<newline>e\<newline>function f\<newline>g'' 1000)
     \<in> set (butlast (chunkCode ''a.ts'' ''a\<newline>b\<newline>c\<newline>d\<newline>e\<newline>function f\<newline>g'' 1000)) \<and>
   6 \<le> length (split newline
          (content (hd (chunkCode ''a.ts'' ''a\<newline>b\<newline>c\<newline>d\<newline>e\<newline>function f\<newline>g'' 1000)))) \<and>
   endLine (hd (chunkCode ''a.ts'' ''a\<newline>b\<newline>c\<newline>d\<newline>e\<newline>function f\<newline>g'' 1000)) = 5 \<and>
   startLine (hd (chunkCode ''a.ts'' ''a\<newline>b\<newline>c\<newline>d\<newline>e\<newline>function f\<newline>g'' 1000)) = 0"
proof -
  have m: "hd (chunkCode ''a.ts'' ''a\<newline>b\<newline>c\<newline>d\<newline>e\<newline>function f\<newline>g'' 1000)
    \<in> set (butlast (chunkCode ''a.ts'' ''a\<newline>b\<newline>c\<newline>d\<newline>e\<newline>function f\<newline>g'' 1000))"
    by code_simp
  have "endLine (hd (chunkCode ''a.ts'' ''a\<newline>b\<newline>c\<newline>d\<newline>e\<newline>function f\<newline>g'' 1000)) = 5 \<and>
     startLine (hd (chunkCode ''a.ts'' ''a\<newline>b\<newline>c\<newline>d\<newline>e\<newline>function f\<newline>g'' 1000)) = 0"
    by code_simp
  then show ?thesis
    using chunkCode_min_lines [OF m] m by simp
qed

section \<open>Context assembly: what the budget test counts\<close>

lemma appendSections_append:
  "appendSections ct m (xs @ ys) st = appendSections ct m ys (appendSections ct m xs st)"
proof (induction xs arbitrary: st)
  case Nil
  then show ?case by simp
next
  case (Cons x xs)
  obtain parts total where st: "st = (parts, total)" by (cases st)
  show ?case unfolding st by (simp add: Let_def Cons.IH)
qed

lemma appendSections_step:
  "appendSections ct m [sec] st =
     (if int (snd st + ct sec) \<le> m then (fst st @ [sec], snd st + ct sec) else st)"
  by (cases st) (simp add: Let_def)

text \<open>The running total that the loop keeps never passes the limit it is tested against.\<close>

lemma appendSections_total:
  "int (snd st) \<le> m \<Longrightarrow> int (snd (appendSections ct m xs st)) \<le> m"
proof (induction xs arbitrary: st)
  case Nil
  then show ?case by simp
next
  case (Cons x xs)
  obtain parts total where st: "st = (parts, total)" by (cases st)
  show ?case using Cons.prems unfolding st by (auto simp: Let_def intro!: Cons.IH)
qed

text \<open>
  So the total that \<open>assembleContext\<close> keeps stays within \<^verbatim>\<open>maxTotalTokens\<close> once
  the map text is within it.
\<close>

lemma phase_totals:
  "int (snd st) \<le> maxTotalTokens config \<Longrightarrow>
     int (snd (phase2 ct config files st)) \<le> maxTotalTokens config"
  "int (snd st) \<le> maxTotalTokens config \<Longrightarrow>
     int (snd (phase3 ct config chunks st)) \<le> maxTotalTokens config"
  by (simp_all add: phase2_def phase3_def appendSections_total)

lemma assembleParts_total:
  assumes "int (snd (phase1 ct trunc config mapText)) \<le> maxTotalTokens config"
  shows "int (snd (assembleParts ct trunc config mapText files chunks)) \<le> maxTotalTokens config"
  unfolding assembleParts_def by (intro phase_totals assms)

lemma length_mapText40: "length mapText40 = 40"
  by (simp add: mapText40_def)

lemma length_content60: "length content60 = 60"
  by (simp add: content60_def)

text \<open>
  C1. \<open>assembleContext\<close> tests \<^verbatim>\<open>totalTokens\<close> against \<^verbatim>\<open>maxTotalTokens\<close>, and
  \<^verbatim>\<open>totalTokens\<close> counts the map text and the sections pushed, not the three headers
  nor the line breaks of the final \<^verbatim>\<open>join\<close>. With a map of 40 characters (10
  tokens), one relevant file of 60 characters and a limit of 30 tokens, the running
  total ends at 30 and the returned string counts 41 tokens, whatever
  \<^verbatim>\<open>truncateToTokens\<close> is (the map fits its own cap, so it is not called).
\<close>

theorem assembleContext_exceeds_budget:
  "estimateTokens
     (assembleContext estimateTokens trunc smallConfig mapText40 [(''a.ts'', content60)] []) = 41
   \<and> maxTotalTokens smallConfig = 30
   \<and> snd (assembleParts estimateTokens trunc smallConfig mapText40 [(''a.ts'', content60)] []) = 30"
  by (simp add: assembleContext_def assembleParts_def phase1_def phase2_def phase3_def
      fileSection_def estimateTokens_def smallConfig_def Let_def length_mapText40 length_content60)

text \<open>
  C2, as the code has it. Phase 3 has no test on the chunk's file or on its line range.
  Once the phase is entered, the chunk \<open>c\<close> that follows the chunks \<open>pre\<close> in the
  search results is pushed exactly when the running total reached after \<open>pre\<close>, plus
  the tokens of its section, stays within \<^verbatim>\<open>maxTotalTokens\<close>; the walk then goes on
  with the chunks \<open>post\<close>. The statement is for a chunk of a file that phase 2 did not
  include.
\<close>

theorem phase3_skips_only_on_budget:
  assumes "st2 = phase2 ct config relevantFiles (phase1 ct trunc config mapText)"
    and "int (snd st2) < maxTotalTokens config"
    and "\<forall>fc \<in> set relevantFiles. fileSection fc \<in> set (fst st2) \<longrightarrow> fst fc \<noteq> cfile c"
    and "before = appendSections ct (maxTotalTokens config) (map chunkSection pre)
                    (fst st2 @ [''\<newline>## Related Code''], snd st2)"
  shows "assembleParts ct trunc config mapText relevantFiles (pre @ c # post) =
           appendSections ct (maxTotalTokens config) (map chunkSection post)
             (if int (snd before + ct (chunkSection c)) \<le> maxTotalTokens config
              then (fst before @ [chunkSection c], snd before + ct (chunkSection c))
              else before)"
proof -
  have "assembleParts ct trunc config mapText relevantFiles (pre @ c # post) =
      appendSections ct (maxTotalTokens config) (map chunkSection (pre @ [c] @ post))
        (fst st2 @ [''\<newline>## Related Code''], snd st2)"
    using assms(1,2) by (simp add: assembleParts_def phase3_def)
  also have "\<dots> = appendSections ct (maxTotalTokens config) (map chunkSection post)
      (appendSections ct (maxTotalTokens config) [chunkSection c] before)"
    by (simp only: map_append appendSections_append assms(4) list.map)
  finally show ?thesis by (simp only: appendSections_step)
qed

text \<open>
  The map, the file \<^verbatim>\<open>b.ts\<close> in phase 2, and two chunks of \<^verbatim>\<open>a.ts\<close> whose line
  ranges 0-5 and 3-8 overlap: the second chunk is pushed behind the first.
\<close>

lemma phase2_example:
  "phase2 estimateTokens smallConfig [(''b.ts'', ''let z'')]
     (phase1 estimateTokens truncateToTokens smallConfig mapText40) =
   ([''## Repository Structure\<newline>'' @ mapText40, ''\<newline>## Relevant Files'',
     fileSection (''b.ts'', ''let z'')], 16)"
  by (simp add: phase1_def phase2_def fileSection_def estimateTokens_def smallConfig_def
      Let_def length_mapText40)

theorem phase3_skips_only_on_budget_witness:
  "int (snd (phase2 estimateTokens smallConfig [(''b.ts'', ''let z'')]
          (phase1 estimateTokens truncateToTokens smallConfig mapText40)))
     < maxTotalTokens smallConfig \<and>
   fst (''b.ts'', ''let z'') \<noteq> cfile chunkB \<and>
   overlaps chunkA chunkB \<and>
   assembleParts estimateTokens truncateToTokens smallConfig mapText40 [(''b.ts'', ''let z'')]
       ([chunkA] @ chunkB # []) =
     ([''## Repository Structure\<newline>'' @ mapText40, ''\<newline>## Relevant Files'',
       fileSection (''b.ts'', ''let z''), ''\<newline>## Related Code'',
       chunkSection chunkA, chunkSection chunkB], 30)"
proof -
  let ?st2 = "phase2 estimateTokens smallConfig [(''b.ts'', ''let z'')]
          (phase1 estimateTokens truncateToTokens smallConfig mapText40)"
  have h2: "int (snd ?st2) < maxTotalTokens smallConfig"
    by (simp add: phase2_example) (simp add: smallConfig_def)
  have h3: "\<forall>fc \<in> set [(''b.ts'', ''let z'')]. fileSection fc \<in> set (fst ?st2) \<longrightarrow> fst fc \<noteq> cfile chunkB"
    by (simp add: chunkB_def)
  have ov: "overlaps chunkA chunkB"
    by (simp add: overlaps_def chunkA_def chunkB_def)
  have tA: "estimateTokens (chunkSection chunkA) = 7"
    by (simp add: chunkSection_def estimateTokens_def chunkA_def)
  have tB: "estimateTokens (chunkSection chunkB) = 7"
    by (simp add: chunkSection_def estimateTokens_def chunkB_def)
  have m: "maxTotalTokens smallConfig = 30"
    by (simp add: smallConfig_def)
  have nf: "fst (''b.ts'', ''let z'') \<noteq> cfile chunkB"
    by (simp add: chunkB_def)
  have before: "appendSections estimateTokens (maxTotalTokens smallConfig) (map chunkSection [chunkA])
      (fst ?st2 @ [''\<newline>## Related Code''], snd ?st2) =
    ([''## Repository Structure\<newline>'' @ mapText40, ''\<newline>## Relevant Files'',
       fileSection (''b.ts'', ''let z''), ''\<newline>## Related Code'', chunkSection chunkA], 23)"
    by (simp add: phase2_example tA m Let_def)
  have "assembleParts estimateTokens truncateToTokens smallConfig mapText40 [(''b.ts'', ''let z'')]
       ([chunkA] @ chunkB # []) =
     ([''## Repository Structure\<newline>'' @ mapText40, ''\<newline>## Relevant Files'',
       fileSection (''b.ts'', ''let z''), ''\<newline>## Related Code'',
       chunkSection chunkA, chunkSection chunkB], 30)"
    using phase3_skips_only_on_budget [OF refl h2 h3 before [symmetric], of "[]"]
    by (simp add: tB m)
  with h2 nf ov show ?thesis by blast
qed

text \<open>
  With no relevant file at all, the same two overlapping chunks are both in the output.
\<close>

theorem phase3_appends_overlapping_chunk:
  "overlaps chunkA chunkB \<and>
   fst (assembleParts estimateTokens truncateToTokens smallConfig mapText40 [] [chunkA, chunkB]) =
     [''## Repository Structure\<newline>'' @ mapText40, ''\<newline>## Related Code'',
      chunkSection chunkA, chunkSection chunkB]"
  by (simp add: assembleParts_def phase1_def phase2_def phase3_def overlaps_def
      chunkSection_def estimateTokens_def smallConfig_def Let_def length_mapText40 chunkA_def chunkB_def)

section \<open>Dependency graph: where edges end\<close>

lemma set_setAdd: "set (setAdd x xs) = insert x (set xs)"
  by (auto simp: setAdd_def)

lemma distinct_setAdd: "distinct xs \<Longrightarrow> distinct (setAdd x xs)"
  by (auto simp: setAdd_def)

lemma set_fold_setAdd: "set (fold setAdd xs acc) = set xs \<union> set acc"
  by (induction xs arbitrary: acc) (auto simp: set_setAdd)

lemma distinct_fold_setAdd: "distinct acc \<Longrightarrow> distinct (fold setAdd xs acc)"
  by (induction xs arbitrary: acc) (auto simp: distinct_setAdd)

lemma set_newSet: "set (newSet xs) = set xs"
  by (simp add: newSet_def set_fold_setAdd)

lemma distinct_newSet: "distinct (newSet xs)"
  by (simp add: newSet_def distinct_fold_setAdd)

lemma set_fold_importStep:
  "set (fold (importStep f) caps acc) =
     set acc \<union> {r. \<exists>p \<in> set caps. startsWith p ''.'' \<and> r = resolveImport f p \<and> r \<noteq> []}"
  by (induction caps arbitrary: acc) (auto simp: importStep_def Let_def set_setAdd)

lemma distinct_fold_importStep:
  "distinct acc \<Longrightarrow> distinct (fold (importStep f) caps acc)"
  by (induction caps arbitrary: acc) (auto simp: importStep_def Let_def distinct_setAdd)

lemma set_extractImports:
  "set (extractImports code f) =
     {r. \<exists>p \<in> set (importCaptures code).
           startsWith p ''.'' \<and> r = resolveImport f p \<and> r \<noteq> []}"
  by (simp add: extractImports_def set_fold_importStep)

lemma distinct_extractImports: "distinct (extractImports code f)"
  by (simp add: extractImports_def distinct_fold_importStep)

lemma addReverseEdge_fields [simp]:
  "nodes (addReverseEdge f imp g) = nodes g"
  "edges (addReverseEdge f imp g) = edges g"
  by (simp_all add: addReverseEdge_def)

lemma fold_addReverseEdge_fields [simp]:
  "nodes (fold (addReverseEdge f) imps g) = nodes g"
  "edges (fold (addReverseEdge f) imps g) = edges g"
  by (induction imps arbitrary: g) simp_all

lemma importersIn_addReverseEdge:
  "importersIn (addReverseEdge f imp g) t =
     (if t = imp then insert f (importersIn g t) else importersIn g t)"
  by (auto simp: importersIn_def addReverseEdge_def set_setAdd split: option.splits)

lemma importersIn_fold:
  "importersIn (fold (addReverseEdge f) imps g) t =
     (if t \<in> set imps then insert f (importersIn g t) else importersIn g t)"
  by (induction imps arbitrary: g) (auto simp: importersIn_addReverseEdge)

lemma buildLoop_inv:
  "buildLoop fs files g = Inr g' \<Longrightarrow> graphInv fs F g \<Longrightarrow> set files \<subseteq> F \<Longrightarrow>
     graphInv fs F g' \<and> nodes g' = nodes g"
proof (induction files arbitrary: g)
  case Nil
  then show ?case by simp
next
  case (Cons f rest)
  from Cons.prems(1) obtain caps where caps: "fs f = Some caps"
    by (cases "fs f") auto
  let ?imports = "extractImports caps f"
  let ?g1 = "g\<lparr>edges := (edges g)(f \<mapsto> ?imports)\<rparr>"
  let ?g2 = "fold (addReverseEdge f) ?imports ?g1"
  have loop: "buildLoop fs rest ?g2 = Inr g'"
    using Cons.prems(1) caps by (simp add: Let_def)
  have old: "edges g f = Some ts \<Longrightarrow> ts = ?imports" for ts
    using Cons.prems(2) caps unfolding graphInv_def by fastforce
  have tgt: "targetsIn ?g2 x = (if x = f then set ?imports else targetsIn g x)" for x
    by (simp add: targetsIn_def)
  have imp: "importersIn ?g2 t = (if t \<in> set ?imports then insert f (importersIn g t) else importersIn g t)" for t
    by (simp add: importersIn_fold) (simp add: importersIn_def)
  have mirror: "\<forall>t x. x \<in> importersIn ?g2 t \<longleftrightarrow> t \<in> targetsIn ?g2 x"
  proof (intro allI)
    fix t x
    have g: "x \<in> importersIn g t \<longleftrightarrow> t \<in> targetsIn g x"
      using Cons.prems(2) by (simp add: graphInv_def)
    show "x \<in> importersIn ?g2 t \<longleftrightarrow> t \<in> targetsIn ?g2 x"
    proof (cases "x = f")
      case True
      have "t \<in> targetsIn g f \<Longrightarrow> t \<in> set ?imports"
        using old by (auto simp: targetsIn_def split: option.splits)
      then show ?thesis using True g by (auto simp: tgt imp)
    next
      case False
      then show ?thesis using g by (auto simp: tgt imp)
    qed
  qed
  have src: "\<forall>x ts. edges ?g2 x = Some ts \<longrightarrow>
      x \<in> F \<and> (\<exists>caps. fs x = Some caps \<and> ts = extractImports caps x)"
  proof (intro allI impI)
    fix x ts assume e: "edges ?g2 x = Some ts"
    show "x \<in> F \<and> (\<exists>caps. fs x = Some caps \<and> ts = extractImports caps x)"
    proof (cases "x = f")
      case True
      then show ?thesis using e caps Cons.prems(3) by simp
    next
      case False
      then have "edges g x = Some ts" using e by simp
      then show ?thesis using Cons.prems(2) unfolding graphInv_def by blast
    qed
  qed
  have inv2: "graphInv fs F ?g2"
    unfolding graphInv_def using src mirror by blast
  have rest: "set rest \<subseteq> F" using Cons.prems(3) by simp
  have "graphInv fs F g' \<and> nodes g' = nodes ?g2"
    by (rule Cons.IH [OF loop inv2 rest])
  then show ?case by simp
qed

lemma resolveImport_example: "resolveImport ''a.ts'' ''./b'' = ''b.ts''"
  by code_simp

lemma importCaptures_oneFile:
  "importCaptures ''import { b } from './b';\<newline>import React from 'react';\<newline>'' = [''./b'', ''react'']"
  by code_simp


lemma buildDependencyGraph_oneFile:
  "buildDependencyGraph oneFileProject [''a.ts''] = Inr oneFileGraph"
  by (simp add: buildDependencyGraph_def oneFileProject_def oneFileGraph_def newSet_def setAdd_def
      extractImports_def importCaptures_oneFile importStep_def startsWith_def
      resolveImport_example addReverseEdge_def Let_def)


lemma extractImports_example:
  "extractImports
     ''import { AuthService } from '../auth/service';\<newline>import { logger } from '../utils/logger';\<newline>''
     ''src/api/routes.ts'' = [''src/auth/service.ts'', ''src/utils/logger.ts'']"
  "extractImports ''import { User } from '../models/user';\<newline>'' ''src/auth/service.ts'' =
     [''src/models/user.ts'']"
  "extractImports ''export const logger = console;\<newline>'' ''src/utils/logger.ts'' = []"
  "extractImports ''export interface User { id: string }\<newline>'' ''src/models/user.ts'' = []"
  by code_simp+

lemma buildDependencyGraph_example:
  "buildDependencyGraph exampleProject exampleFiles = Inr exampleGraph"
  by (simp add: buildDependencyGraph_def exampleProject_def exampleGraph_def exampleFiles_def
      newSet_def setAdd_def extractImports_example addReverseEdge_def Let_def)

text \<open>
  C3. The file \<^verbatim>\<open>a.ts\<close> is the whole project and imports \<^verbatim>\<open>./b\<close> and the package
  \<^verbatim>\<open>react\<close>. \<open>resolveImport\<close> turns \<^verbatim>\<open>./b\<close> into \<^verbatim>\<open>b.ts\<close> and nothing
  looks \<^verbatim>\<open>b.ts\<close> up among the files: the graph gets the forward edge from
  \<^verbatim>\<open>a.ts\<close> to \<^verbatim>\<open>b.ts\<close> and the reverse entry under \<^verbatim>\<open>b.ts\<close>, and
  \<^verbatim>\<open>b.ts\<close> is not a node. The import of \<^verbatim>\<open>react\<close> leaves no edge.
\<close>

theorem buildDependencyGraph_edge_outside_nodes:
  "buildDependencyGraph oneFileProject [''a.ts''] = Inr oneFileGraph \<and>
   edges oneFileGraph ''a.ts'' = Some [''b.ts''] \<and>
   reverseEdges oneFileGraph ''b.ts'' = Some [''a.ts''] \<and>
   ''b.ts'' \<notin> set (nodes oneFileGraph)"
  by (simp add: buildDependencyGraph_oneFile) (simp add: oneFileGraph_def)

text \<open>
  The graphs that \<open>buildDependencyGraph\<close> returns are well-formed, which is what the
  statements on the ranking ask of a graph.
\<close>

lemma distinct_reverse_addReverseEdge:
  assumes "\<forall>t imps. reverseEdges g t = Some imps \<longrightarrow> distinct imps"
  shows "\<forall>t imps. reverseEdges (addReverseEdge f imp g) t = Some imps \<longrightarrow> distinct imps"
  using assms by (auto simp: addReverseEdge_def distinct_setAdd split: option.splits if_splits)

lemma distinct_reverse_fold:
  assumes "\<forall>t imps. reverseEdges g t = Some imps \<longrightarrow> distinct imps"
  shows "\<forall>t imps. reverseEdges (fold (addReverseEdge f) xs g) t = Some imps \<longrightarrow> distinct imps"
  using assms
proof (induction xs arbitrary: g)
  case Nil
  then show ?case by simp
next
  case (Cons x xs)
  show ?case
    using Cons.IH [OF distinct_reverse_addReverseEdge [OF Cons.prems]] by simp
qed

lemma distinct_reverse_buildLoop:
  assumes "buildLoop fs files g = Inr g'"
    and "\<forall>t imps. reverseEdges g t = Some imps \<longrightarrow> distinct imps"
  shows "\<forall>t imps. reverseEdges g' t = Some imps \<longrightarrow> distinct imps"
  using assms
proof (induction files arbitrary: g)
  case Nil
  then show ?case by simp
next
  case (Cons f rest)
  from Cons.prems(1) obtain caps where caps: "fs f = Some caps"
    by (cases "fs f") auto
  let ?g1 = "g\<lparr>edges := (edges g)(f \<mapsto> extractImports caps f)\<rparr>"
  have loop: "buildLoop fs rest (fold (addReverseEdge f) (extractImports caps f) ?g1) = Inr g'"
    using Cons.prems(1) caps by (simp add: Let_def)
  have "\<forall>t imps. reverseEdges ?g1 t = Some imps \<longrightarrow> distinct imps"
    using Cons.prems(2) by simp
  from Cons.IH [OF loop distinct_reverse_fold [OF this]] show ?case .
qed

lemma buildDependencyGraph_wellFormed:
  assumes "buildDependencyGraph fs files = Inr g"
  shows "wellFormed g"
proof -
  let ?g0 = "\<lparr>nodes = newSet files, edges = Map.empty, reverseEdges = Map.empty\<rparr>"
  have b: "buildLoop fs files ?g0 = Inr g"
    using assms by (simp add: buildDependencyGraph_def)
  have "graphInv fs (set files) ?g0"
    by (simp add: graphInv_def importersIn_def targetsIn_def)
  with b have inv: "graphInv fs (set files) g" and n: "nodes g = newSet files"
    using buildLoop_inv [of fs files ?g0 g "set files"] by simp_all
  have d: "\<forall>t imps. reverseEdges g t = Some imps \<longrightarrow> distinct imps"
    by (rule distinct_reverse_buildLoop [OF b]) simp
  show ?thesis
    unfolding wellFormed_def
  proof (intro conjI allI impI ballI)
    show "distinct (nodes g)" by (simp add: n distinct_newSet)
  next
    fix t imps assume "reverseEdges g t = Some imps"
    then show "distinct imps" using d by blast
  next
    fix t imps f assume r: "reverseEdges g t = Some imps" and f: "f \<in> set imps"
    then have "f \<in> importersIn g t" by (simp add: importersIn_def)
    with inv have "t \<in> targetsIn g f" by (simp add: graphInv_def)
    then obtain ts where ts: "edges g f = Some ts" "t \<in> set ts"
      by (auto simp: targetsIn_def split: option.splits)
    with inv have "f \<in> set files" unfolding graphInv_def by blast
    then show "f \<in> set (nodes g)" by (simp add: n set_newSet)
    from ts show "\<exists>ts. edges g f = Some ts \<and> t \<in> set ts" by blast
  qed
qed

section \<open>Ranking: the entries of the score map and what the rounds keep\<close>

lemma dom_initScores: "dom (initScores ns) = set ns"
proof -
  have aux: "dom (fold (\<lambda>node scores. scores(node \<mapsto> c)) ks m) = dom m \<union> set ks"
    for c :: number and ks m
    by (induction ks arbitrary: m) auto
  show ?thesis unfolding initScores_def by (subst aux) simp
qed

lemma dom_boostSeeds: "dom (boostSeeds b seeds s) = dom s \<union> set seeds"
  unfolding boostSeeds_def by (induction seeds arbitrary: s) auto

lemma fold_pairs_apply:
  "fold (\<lambda>(k, v) m. m(k \<mapsto> v)) (map (\<lambda>k. (k, f k)) ks) m0 x =
     (if x \<in> set ks then Some (f x) else m0 x)"
  by (induction ks arbitrary: m0) auto

lemma rankRound_apply:
  "rankRound g d s k = (if k \<in> set (nodes g) then Some (nodeScore g d s k) else s k)"
  by (simp add: rankRound_def newScores_def fold_pairs_apply)

lemma dom_rankRound: "dom (rankRound g d s) = dom s \<union> set (nodes g)"
  by (auto simp: rankRound_apply dom_def)

lemma dom_rounds:
  "set (nodes g) \<subseteq> dom s \<Longrightarrow> dom (((rankRound g d) ^^ it) s) = dom s"
  by (induction it) (auto simp: dom_rankRound)

lemma rounds_outside:
  "k \<notin> set (nodes g) \<Longrightarrow> ((rankRound g d) ^^ it) s k = s k"
  by (induction it) (auto simp: rankRound_apply)

lemma getScore_boostSeeds:
  "getScore s k = Fin v \<Longrightarrow>
     getScore (boostSeeds b seeds s) k = Fin (v + b * real (count_list seeds k))"
proof (induction seeds arbitrary: s v)
  case Nil
  then show ?case by (simp add: boostSeeds_def)
next
  case (Cons x xs)
  let ?s = "s(x \<mapsto> nadd (getScore s x) (Fin b))"
  have step: "boostSeeds b (x # xs) s = boostSeeds b xs ?s"
    by (simp add: boostSeeds_def)
  have eq: "getScore (boostSeeds b (x # xs) s) k = getScore (boostSeeds b xs ?s) k"
    by (simp only: step)
  show ?case
  proof (cases "x = k")
    case True
    then have "getScore ?s k = Fin (v + b)" using Cons.prems by (simp add: getScore_def)
    from Cons.IH [OF this] have "getScore (boostSeeds b xs ?s) k = Fin (v + b + b * real (count_list xs k))" .
    moreover have "v + b + b * real (count_list xs k) = v + b * real (count_list (x # xs) k)"
      using True by (simp add: algebra_simps)
    ultimately show ?thesis by (simp only: eq)
  next
    case False
    then have "getScore ?s k = Fin v" using Cons.prems by (simp add: getScore_def)
    from Cons.IH [OF this] have "getScore (boostSeeds b xs ?s) k = Fin (v + b * real (count_list xs k))" .
    moreover have "count_list (x # xs) k = count_list xs k" using False by simp
    ultimately show ?thesis by (simp only: eq)
  qed
qed

text \<open>
  C4, as the code has it. The map that \<open>rankFiles\<close> returns has one entry for each
  node and one for each seed, and no other: a seed that is not a node is not passed
  over. \<^verbatim>\<open>scores.get(seed) ?? 0\<close> starts it at 0, it gets 0.5 for each time it is
  listed, and no round writes to it.
\<close>

theorem rankFiles_keys:
  "dom (rankFiles g seeds d it) = set (nodes g) \<union> set seeds \<and>
   (\<forall>seed \<in> set seeds. seed \<notin> set (nodes g) \<longrightarrow>
      rankFiles g seeds d it seed = Some (Fin (real (count_list seeds seed) / 2)))"
proof (intro conjI ballI impI)
  show "dom (rankFiles g seeds d it) = set (nodes g) \<union> set seeds"
    by (simp add: rankFiles_def rankFilesBoost_def dom_rounds dom_boostSeeds dom_initScores)
next
  fix seed assume s: "seed \<in> set seeds" "seed \<notin> set (nodes g)"
  let ?s = "boostSeeds (1 / 2) seeds (initScores (nodes g))"
  have "seed \<notin> dom (initScores (nodes g))" using s by (simp add: dom_initScores)
  then have "getScore (initScores (nodes g)) seed = Fin 0"
    by (auto simp: getScore_def split: option.splits)
  from getScore_boostSeeds [OF this]
  have g: "getScore ?s seed = Fin (real (count_list seeds seed) / 2)" by simp
  have "seed \<in> dom ?s" using s by (simp add: dom_boostSeeds)
  with g have "?s seed = Some (Fin (real (count_list seeds seed) / 2))"
    by (auto simp: getScore_def)
  then show "rankFiles g seeds d it seed = Some (Fin (real (count_list seeds seed) / 2))"
    using s by (simp add: rankFiles_def rankFilesBoost_def rounds_outside)
qed

text \<open>The graph of two files, ranked with the seed \<^verbatim>\<open>x.ts\<close> that is not one of them.\<close>

theorem rankFiles_keys_witness:
  "''x.ts'' \<in> set [''x.ts''] \<and> ''x.ts'' \<notin> set (nodes twoFileGraph) \<and>
   dom (rankFiles twoFileGraph [''x.ts''] defaultDamping defaultIterations) = {''a.ts'', ''b.ts'', ''x.ts''} \<and>
   rankFiles twoFileGraph [''x.ts''] defaultDamping defaultIterations ''x.ts'' = Some (Fin (1 / 2))"
  using rankFiles_keys [of twoFileGraph "[''x.ts'']" defaultDamping defaultIterations]
  by (auto simp: twoFileGraph_def)

text \<open>The entry of that seed, in the map returned for the default options.\<close>

theorem rankFiles_keeps_seed_outside_nodes:
  "''x.ts'' \<notin> set (nodes twoFileGraph) \<and>
   rankFiles twoFileGraph [''x.ts''] defaultDamping defaultIterations ''x.ts'' = Some (Fin (1 / 2))"
proof -
  have n: "''x.ts'' \<notin> set (nodes twoFileGraph)" by (simp add: twoFileGraph_def)
  have "boostSeeds (1 / 2) [''x.ts''] (initScores (nodes twoFileGraph)) ''x.ts'' = Some (Fin (1 / 2))"
    by (simp add: boostSeeds_def initScores_def twoFileGraph_def getScore_def)
  with n show ?thesis by (simp add: rankFiles_def rankFilesBoost_def rounds_outside)
qed

subsection \<open>The rounds on real-valued scores\<close>

lemma getScore_fin: "finiteMap s \<Longrightarrow> getScore s k = Fin (scoreOf s k)"
  by (cases "getScore s k") (auto simp: finiteMap_def scoreOf_def numVal_def)

lemma fold_nadd_fin:
  "\<forall>u \<in> set xs. h u = Fin (f u) \<Longrightarrow>
     fold (\<lambda>u acc. nadd acc (h u)) xs (Fin a) = Fin (a + sum_list (map f xs))"
  by (induction xs arbitrary: a) (auto simp: algebra_simps)

lemma nodeScore_fin:
  assumes "nodes g \<noteq> []" "finiteMap s"
    and "\<forall>u \<in> set (importersOf g v). importerOutDegree g u \<noteq> 0"
  shows "nodeScore g d s v = Fin (stepR g d (scoreOf s) v)"
proof -
  have init: "ndiv (Fin (1 - d)) (Fin (real (length (nodes g)))) = Fin ((1 - d) / real (length (nodes g)))"
    using assms(1) by simp
  have summand: "\<forall>u \<in> set (importersOf g v).
      nmul (Fin d) (ndiv (getScore s u) (Fin (real (importerOutDegree g u)))) =
      Fin (d * (scoreOf s u / real (importerOutDegree g u)))"
    using assms(2,3) by (simp add: getScore_fin)
  show ?thesis
    unfolding nodeScore_def init stepR_def
    by (rule fold_nadd_fin [OF summand])
qed

lemma finiteMap_rankRound:
  assumes "nodes g \<noteq> []" "finiteMap s" "importersImport g"
  shows "finiteMap (rankRound g d s)"
  unfolding finiteMap_def
proof
  fix k
  show "getScore (rankRound g d s) k \<noteq> NonFinite"
  proof (cases "k \<in> set (nodes g)")
    case True
    then have "getScore (rankRound g d s) k = nodeScore g d s k"
      by (simp add: getScore_def rankRound_apply)
    also have "\<dots> = Fin (stepR g d (scoreOf s) k)"
      using assms by (intro nodeScore_fin) (auto simp: importersImport_def)
    finally show ?thesis by simp
  next
    case False
    then have "getScore (rankRound g d s) k = getScore s k"
      by (simp add: getScore_def rankRound_apply)
    then show ?thesis using assms(2) by (simp add: finiteMap_def)
  qed
qed

lemma scoreOf_rankRound:
  assumes "nodes g \<noteq> []" "finiteMap s" "importersImport g"
  shows "scoreOf (rankRound g d s) = roundR g d (scoreOf s)"
proof
  fix k
  show "scoreOf (rankRound g d s) k = roundR g d (scoreOf s) k"
  proof (cases "k \<in> set (nodes g)")
    case True
    then have "getScore (rankRound g d s) k = nodeScore g d s k"
      by (simp add: getScore_def rankRound_apply)
    also have "\<dots> = Fin (stepR g d (scoreOf s) k)"
      using assms by (intro nodeScore_fin) (auto simp: importersImport_def)
    finally show ?thesis using True by (simp add: scoreOf_def roundR_def numVal_def)
  next
    case False
    then show ?thesis by (simp add: scoreOf_def getScore_def rankRound_apply roundR_def)
  qed
qed

lemma rounds_real:
  assumes "nodes g \<noteq> []" "finiteMap s" "importersImport g"
  shows "finiteMap (((rankRound g d) ^^ it) s) \<and>
         scoreOf (((rankRound g d) ^^ it) s) = ((roundR g d) ^^ it) (scoreOf s)"
proof (induction it)
  case 0
  then show ?case using assms(2) by simp
next
  case (Suc it)
  then show ?case
    using finiteMap_rankRound [OF assms(1) _ assms(3)] scoreOf_rankRound [OF assms(1) _ assms(3)]
    by simp
qed

lemma roundR_mono:
  assumes "0 \<le> d" "\<forall>k. R1 k \<le> R2 k"
  shows "roundR g d R1 k \<le> roundR g d R2 k"
proof -
  have "(\<Sum>u \<leftarrow> importersOf g k. d * (R1 u / real (importerOutDegree g u))) \<le>
        (\<Sum>u \<leftarrow> importersOf g k. d * (R2 u / real (importerOutDegree g u)))"
    using assms by (intro sum_list_mono mult_left_mono divide_right_mono) auto
  then show ?thesis using assms(2) by (simp add: roundR_def stepR_def)
qed

lemma rounds_mono:
  assumes "0 \<le> d" "\<forall>k. R1 k \<le> R2 k"
  shows "((roundR g d) ^^ it) R1 k \<le> ((roundR g d) ^^ it) R2 k"
proof (induction it arbitrary: k)
  case 0
  then show ?case using assms(2) by simp
next
  case (Suc it)
  then show ?case using roundR_mono [OF assms(1), of "((roundR g d) ^^ it) R1" "((roundR g d) ^^ it) R2"]
    by simp
qed













lemma initScores_apply:
  "initScores ns k =
     (if k \<in> set ns then Some (ndiv (Fin 1) (Fin (real (length ns)))) else None)"
proof -
  have aux: "fold (\<lambda>node scores. scores(node \<mapsto> c)) ks m k =
      (if k \<in> set ks then Some c else m k)" for c :: number and ks m
    by (induction ks arbitrary: m) auto
  show ?thesis unfolding initScores_def by (subst aux) simp
qed

lemma finiteMap_initScores: "ns \<noteq> [] \<Longrightarrow> finiteMap (initScores ns)"
  by (simp add: finiteMap_def getScore_def initScores_apply)



lemma boostSeeds_real:
  assumes "finiteMap s"
  shows "finiteMap (boostSeeds b seeds s)"
    and "scoreOf (boostSeeds b seeds s) k = scoreOf s k + b * real (count_list seeds k)"
proof -
  have g: "getScore (boostSeeds b seeds s) k = Fin (scoreOf s k + b * real (count_list seeds k))" for k
    by (rule getScore_boostSeeds) (rule getScore_fin [OF assms])
  show "finiteMap (boostSeeds b seeds s)"
    unfolding finiteMap_def by (simp add: g)
  show "scoreOf (boostSeeds b seeds s) k = scoreOf s k + b * real (count_list seeds k)"
    by (simp add: scoreOf_def g numVal_def)
qed






text \<open>
  What a larger amount added to the seeds does keep: on a graph in which every file listed
  as an importer has at least one import, with at least one node and a damping that is
  not negative, it lowers the final score of no file; both scores are finite.
\<close>

lemma rankFilesBoost_mono:
  assumes "importersImport g" "nodes g \<noteq> []" "0 \<le> d" "b1 \<le> b2"
  shows "\<exists>r1 r2. getScore (rankFilesBoost b1 g seeds d it) k = Fin r1 \<and>
                 getScore (rankFilesBoost b2 g seeds d it) k = Fin r2 \<and> r1 \<le> r2"
proof -
  let ?init = "initScores (nodes g)"
  let ?i1 = "boostSeeds b1 seeds ?init" and ?i2 = "boostSeeds b2 seeds ?init"
  have f0: "finiteMap ?init" by (rule finiteMap_initScores [OF assms(2)])
  have f1: "finiteMap ?i1" and f2: "finiteMap ?i2"
    by (rule boostSeeds_real(1) [OF f0])+
  have le0: "\<forall>k. scoreOf ?i1 k \<le> scoreOf ?i2 k"
    using assms(4) by (simp add: boostSeeds_real(2) [OF f0] mult_right_mono)
  have r1: "finiteMap (rankFilesBoost b1 g seeds d it)"
      "scoreOf (rankFilesBoost b1 g seeds d it) = ((roundR g d) ^^ it) (scoreOf ?i1)"
    using rounds_real [OF assms(2) f1 assms(1), where d = d and it = it] by (simp_all add: rankFilesBoost_def)
  have r2: "finiteMap (rankFilesBoost b2 g seeds d it)"
      "scoreOf (rankFilesBoost b2 g seeds d it) = ((roundR g d) ^^ it) (scoreOf ?i2)"
    using rounds_real [OF assms(2) f2 assms(1), where d = d and it = it] by (simp_all add: rankFilesBoost_def)
  have "scoreOf (rankFilesBoost b1 g seeds d it) k \<le> scoreOf (rankFilesBoost b2 g seeds d it) k"
    unfolding r1(2) r2(2) by (rule rounds_mono [OF assms(3) le0])
  with getScore_fin [OF r1(1), of k] getScore_fin [OF r2(1), of k] show ?thesis by blast
qed


lemma wellFormed_twoFileGraph: "wellFormed twoFileGraph"
  by (auto simp: wellFormed_def twoFileGraph_def split: if_splits)






lemma twenty: "defaultIterations = Suc (Suc 18)"
  by (simp add: defaultIterations_def)




subsection \<open>The worked example of the repository\<close>

lemma example_nodes: "nodes exampleGraph = exampleFiles"
  by (simp add: exampleGraph_def)

lemma example_round_routes:
  "rankRound exampleGraph d s ''src/api/routes.ts'' = Some (Fin ((1 - d) / 4))"
  by (simp add: rankRound_apply example_nodes)
     (simp add: exampleGraph_def exampleFiles_def nodeScore_def importersOf_def)

lemma example_round_service:
  "getScore s ''src/api/routes.ts'' = Fin x \<Longrightarrow>
     rankRound exampleGraph d s ''src/auth/service.ts'' = Some (Fin ((1 - d) / 4 + d * (x / 2)))"
  by (simp add: rankRound_apply example_nodes)
     (simp add: exampleGraph_def exampleFiles_def nodeScore_def importersOf_def
        importerOutDegree_def)

lemma example_round_logger:
  "getScore s ''src/api/routes.ts'' = Fin x \<Longrightarrow>
     rankRound exampleGraph d s ''src/utils/logger.ts'' = Some (Fin ((1 - d) / 4 + d * (x / 2)))"
  by (simp add: rankRound_apply example_nodes)
     (simp add: exampleGraph_def exampleFiles_def nodeScore_def importersOf_def
        importerOutDegree_def)

lemma example_round_user:
  "getScore s ''src/auth/service.ts'' = Fin x \<Longrightarrow>
     rankRound exampleGraph d s ''src/models/user.ts'' = Some (Fin ((1 - d) / 4 + d * x))"
  by (simp add: rankRound_apply example_nodes)
     (simp add: exampleGraph_def exampleFiles_def nodeScore_def importersOf_def
        importerOutDegree_def)

text \<open>
  The first round on the example gives the numbers that the repository's walk through it
  gives: 0.0375 for \<^verbatim>\<open>routes.ts\<close>, 0.14375 for \<^verbatim>\<open>service.ts\<close> and
  \<^verbatim>\<open>logger.ts\<close>, 0.675 for \<^verbatim>\<open>user.ts\<close>.
\<close>

lemma example_first_round:
  "rankFiles exampleGraph [''src/auth/service.ts''] defaultDamping 1 ''src/api/routes.ts'' =
     Some (Fin (3 / 80))"
  "rankFiles exampleGraph [''src/auth/service.ts''] defaultDamping 1 ''src/auth/service.ts'' =
     Some (Fin (23 / 160))"
  "rankFiles exampleGraph [''src/auth/service.ts''] defaultDamping 1 ''src/utils/logger.ts'' =
     Some (Fin (23 / 160))"
  "rankFiles exampleGraph [''src/auth/service.ts''] defaultDamping 1 ''src/models/user.ts'' =
     Some (Fin (27 / 40))"
proof -
  let ?s = "boostSeeds (1 / 2) [''src/auth/service.ts''] (initScores (nodes exampleGraph))"
  have r: "getScore ?s ''src/api/routes.ts'' = Fin (1 / 4)"
    by (simp add: boostSeeds_def initScores_def example_nodes exampleFiles_def getScore_def)
  have v: "getScore ?s ''src/auth/service.ts'' = Fin (3 / 4)"
    by (simp add: boostSeeds_def initScores_def example_nodes exampleFiles_def getScore_def)
  show "rankFiles exampleGraph [''src/auth/service.ts''] defaultDamping 1 ''src/api/routes.ts'' =
     Some (Fin (3 / 80))"
    by (simp add: rankFiles_def rankFilesBoost_def example_round_routes defaultDamping_def)
  show "rankFiles exampleGraph [''src/auth/service.ts''] defaultDamping 1 ''src/auth/service.ts'' =
     Some (Fin (23 / 160))"
    by (simp add: rankFiles_def rankFilesBoost_def example_round_service [OF r] defaultDamping_def)
  show "rankFiles exampleGraph [''src/auth/service.ts''] defaultDamping 1 ''src/utils/logger.ts'' =
     Some (Fin (23 / 160))"
    by (simp add: rankFiles_def rankFilesBoost_def example_round_logger [OF r] defaultDamping_def)
  show "rankFiles exampleGraph [''src/auth/service.ts''] defaultDamping 1 ''src/models/user.ts'' =
     Some (Fin (27 / 40))"
    by (simp add: rankFiles_def rankFilesBoost_def example_round_user [OF v] defaultDamping_def)
qed

text \<open>
  From the second round on, \<^verbatim>\<open>routes.ts\<close>, which nobody imports, holds
  \<open>(1 - damping) / 4\<close>, and \<^verbatim>\<open>service.ts\<close> and \<^verbatim>\<open>logger.ts\<close> hold what
  \<^verbatim>\<open>routes.ts\<close> hands each of them, whatever the scores were at the start.
\<close>

lemma example_rounds:
  "((rankRound exampleGraph d) ^^ Suc (Suc n)) s ''src/auth/service.ts'' =
     Some (Fin ((1 - d) / 4 + d * ((1 - d) / 4 / 2)))"
  "((rankRound exampleGraph d) ^^ Suc (Suc n)) s ''src/utils/logger.ts'' =
     Some (Fin ((1 - d) / 4 + d * ((1 - d) / 4 / 2)))"
proof -
  let ?s1 = "((rankRound exampleGraph d) ^^ Suc n) s"
  have r: "getScore ?s1 ''src/api/routes.ts'' = Fin ((1 - d) / 4)"
    by (simp add: getScore_def example_round_routes)
  have "((rankRound exampleGraph d) ^^ Suc (Suc n)) s ''src/auth/service.ts'' =
      rankRound exampleGraph d ?s1 ''src/auth/service.ts''"
    by simp
  then show "((rankRound exampleGraph d) ^^ Suc (Suc n)) s ''src/auth/service.ts'' =
     Some (Fin ((1 - d) / 4 + d * ((1 - d) / 4 / 2)))"
    by (simp only: example_round_service [OF r])
  have "((rankRound exampleGraph d) ^^ Suc (Suc n)) s ''src/utils/logger.ts'' =
      rankRound exampleGraph d ?s1 ''src/utils/logger.ts''"
    by simp
  then show "((rankRound exampleGraph d) ^^ Suc (Suc n)) s ''src/utils/logger.ts'' =
     Some (Fin ((1 - d) / 4 + d * ((1 - d) / 4 / 2)))"
    by (simp only: example_round_logger [OF r])
qed

lemma example_final:
  "rankFilesBoost b exampleGraph seeds d defaultIterations ''src/auth/service.ts'' =
     Some (Fin ((1 - d) / 4 + d * ((1 - d) / 4 / 2)))"
  "rankFilesBoost b exampleGraph seeds d defaultIterations ''src/utils/logger.ts'' =
     Some (Fin ((1 - d) / 4 + d * ((1 - d) / 4 / 2)))"
  unfolding rankFilesBoost_def twenty by (rule example_rounds)+

text \<open>
  C6. The repository's worked example has the seed \<^verbatim>\<open>service.ts\<close> end above its
  sibling \<^verbatim>\<open>logger.ts\<close> after 20 iterations, the boost at work. In the code every
  round writes a node's score from the scores of its importers alone, so the amount
  added to a seed is gone once the rounds outnumber the longest chain of imports that
  ends at the seed. On the graph built from the example, with the default options,
  \<^verbatim>\<open>service.ts\<close> ends at 171/3200 when it is seeded with 0.5, when it would be seeded
  with 1, and when it is no seed at all; \<^verbatim>\<open>logger.ts\<close> ends at the same score. A
  larger boost does not raise the seed's own final score.
\<close>

theorem rankFiles_forgets_seed_boost:
  "buildDependencyGraph exampleProject exampleFiles = Inr exampleGraph \<and>
   ''src/auth/service.ts'' \<in> set (nodes exampleGraph) \<and>
   rankFiles exampleGraph [''src/auth/service.ts''] defaultDamping defaultIterations
     ''src/auth/service.ts'' = Some (Fin (171 / 3200)) \<and>
   rankFilesBoost 1 exampleGraph [''src/auth/service.ts''] defaultDamping defaultIterations
     ''src/auth/service.ts'' = Some (Fin (171 / 3200)) \<and>
   rankFiles exampleGraph [] defaultDamping defaultIterations
     ''src/auth/service.ts'' = Some (Fin (171 / 3200)) \<and>
   rankFiles exampleGraph [''src/auth/service.ts''] defaultDamping defaultIterations
     ''src/utils/logger.ts'' = Some (Fin (171 / 3200))"
  by (simp add: buildDependencyGraph_example example_nodes rankFiles_def example_final
      defaultDamping_def)
     (simp add: exampleFiles_def)

section \<open>Search: similarity and the order of the results\<close>

lemma cosineLoop_same_length:
  "length a = length b \<Longrightarrow>
     cosineLoop a b (Fin d, Fin na, Fin nb) =
       (Fin (d + (\<Sum>(x, y) \<leftarrow> zip a b. x * y)),
        Fin (na + (\<Sum>x \<leftarrow> a. x * x)),
        Fin (nb + (\<Sum>y \<leftarrow> b. y * y)))"
  by (induction a b arbitrary: d na nb rule: list_induct2) (simp_all add: algebra_simps)

lemma sum_squares_nonneg: "0 \<le> (\<Sum>x \<leftarrow> a. x * x :: real)"
  by (rule sum_list_nonneg) auto

text \<open>
  C7, as the code has it. For two vectors of one length, \<open>cosineSimilarity\<close> is
  \<open>(a \<cdot> b) / (\<parallel>a\<parallel> \<parallel>b\<parallel>)\<close> when neither sum of squares is zero. There is no guard on
  the division: when one of them is zero the quotient is \<^verbatim>\<open>0 / 0\<close>, not a number, and
  not 0. The statement is over the reals, rounding aside.
\<close>

theorem cosineSimilarity_formula:
  assumes "length a = length b"
  shows "cosineSimilarity a b =
           (if (\<Sum>x \<leftarrow> a. x * x) = 0 \<or> (\<Sum>y \<leftarrow> b. y * y) = 0 then NonFinite
            else Fin ((\<Sum>(x, y) \<leftarrow> zip a b. x * y) /
                      (sqrt (\<Sum>x \<leftarrow> a. x * x) * sqrt (\<Sum>y \<leftarrow> b. y * y))))"
proof -
  have na: "\<not> (\<Sum>x \<leftarrow> a. x * x) < 0" and nb: "\<not> (\<Sum>y \<leftarrow> b. y * y) < 0"
    using sum_squares_nonneg [of a] sum_squares_nonneg [of b] by simp_all
  show ?thesis
    using cosineLoop_same_length [OF assms, of 0 0 0] na nb
    by (simp add: cosineSimilarity_def)
qed

text \<open>Two vectors of norm 5, and the zero vector against a vector that is not zero.\<close>

theorem cosineSimilarity_formula_witness:
  "length [3, 4 :: real] = length [4, 3 :: real] \<and>
   cosineSimilarity [3, 4] [4, 3] = Fin (24 / (sqrt 25 * sqrt 25)) \<and>
   length [0, 0 :: real] = length [1, 2 :: real] \<and>
   cosineSimilarity [0, 0] [1, 2] = NonFinite"
  using cosineSimilarity_formula [of "[3, 4]" "[4, 3]"] cosineSimilarity_formula [of "[0, 0]" "[1, 2]"]
  by simp

text \<open>The similarity of the zero vector to \<open>(1, 2)\<close> is not 0.\<close>

theorem cosineSimilarity_zero_vector:
  "cosineSimilarity [0, 0] [1, 2] = NonFinite \<and> cosineSimilarity [0, 0] [1, 2] \<noteq> Fin 0"
  by (simp add: cosineSimilarity_def)

lemma mset_insertSorted: "mset (insertSorted cmp x xs) = add_mset x (mset xs)"
  by (induction xs) auto

lemma mset_stableSort: "mset (stableSort cmp xs) = mset xs"
  by (induction xs) (auto simp: mset_insertSorted)

lemma set_stableSort: "set (stableSort cmp xs) = set xs"
  using mset_stableSort [of cmp xs] by (metis set_mset_mset)

lemma set_insertSorted: "set (insertSorted cmp x xs) = insert x (set xs)"
  using mset_insertSorted [of cmp x xs] by (metis set_mset_mset set_mset_add_mset_insert)

lemma sorted_insertSorted:
  "sorted_wrt (\<lambda>a b. snd b \<le> snd a) xs \<Longrightarrow>
     sorted_wrt (\<lambda>a b. snd b \<le> snd a) (insertSorted compareScore x xs)"
  by (induction xs) (auto simp: compareScore_def set_insertSorted)

lemma sorted_stableSort: "sorted_wrt (\<lambda>a b. snd b \<le> snd a) (stableSort compareScore xs)"
  by (induction xs) (auto simp: sorted_insertSorted)

lemma filter_insertSorted:
  "filter (\<lambda>p. snd p = s) (insertSorted compareScore x xs) =
     (if snd x = s then x # filter (\<lambda>p. snd p = s) xs else filter (\<lambda>p. snd p = s) xs)"
  by (induction xs) (auto simp: compareScore_def)

lemma filter_stableSort:
  "filter (\<lambda>p. snd p = s) (stableSort compareScore xs) = filter (\<lambda>p. snd p = s) xs"
  by (induction xs) (auto simp: filter_insertSorted)

lemma scoreAll_finite:
  assumes "\<forall>c \<in> set chunks. \<exists>e s. embedding c = Some e \<and> cosineSimilarity q e = Fin s"
  shows "scoreAll q chunks = Inr (map (\<lambda>c. (c, Fin (similarity q c))) chunks)"
  using assms
proof (induction chunks)
  case Nil
  then show ?case by simp
next
  case (Cons c cs)
  from Cons.prems obtain e s where "embedding c = Some e" "cosineSimilarity q e = Fin s"
    by auto
  then have "chunkScore q c = Inr (Fin (similarity q c))"
    by (simp add: chunkScore_def similarity_def numVal_def)
  then show ?case using Cons by simp
qed

lemma finiteScores_map:
  "finiteScores (map (\<lambda>c. (c, Fin (f c))) chunks) = Some (map (\<lambda>c. (c, f c)) chunks)"
  by (induction chunks) auto

lemma slice0_map: "map f (slice0 k xs) = slice0 k (map f xs)"
  by (simp add: slice0_def take_map)

text \<open>
  C8, as the code has it. When every chunk has an embedding and a finite similarity to
  the query, \<open>searchCode\<close> returns the first \<open>topK\<close> chunks of a list \<open>ranked\<close>
  that holds the chunks of the index, in descending order of similarity, with
  the chunks of equal similarity in the order they have in the index: the comparator
  looks at the score only, and the sort is stable.
\<close>

theorem searchCode_stable_descending:
  assumes "\<forall>c \<in> set chunks. \<exists>e s. embedding c = Some e \<and> cosineSimilarity q e = Fin s"
  shows "\<exists>ranked.
           searchCode q chunks topK = Inr (slice0 topK ranked) \<and>
           mset ranked = mset chunks \<and>
           sorted_wrt (\<lambda>a b. similarity q b \<le> similarity q a) ranked \<and>
           (\<forall>s. filter (\<lambda>c. similarity q c = s) ranked = filter (\<lambda>c. similarity q c = s) chunks)"
proof -
  let ?fin = "map (\<lambda>c. (c, similarity q c)) chunks"
  let ?sorted = "stableSort compareScore ?fin"
  let ?ranked = "map fst ?sorted"
  have snd_fst: "snd p = similarity q (fst p)" if "p \<in> set ?sorted" for p
    using that by (auto simp: set_stableSort)
  have 1: "searchCode q chunks topK = Inr (slice0 topK ?ranked)"
    by (simp add: searchCode_def scoreAll_finite [OF assms] finiteScores_map slice0_map)
  have "mset ?ranked = image_mset fst (mset ?fin)"
    by (simp add: mset_stableSort)
  then have 2: "mset ?ranked = mset chunks"
    by (simp add: image_mset.compositionality comp_def)
  have "sorted_wrt (\<lambda>a b. similarity q (fst b) \<le> similarity q (fst a)) ?sorted"
    using sorted_stableSort [of ?fin]
    by (rule sorted_wrt_mono_rel [rotated]) (simp add: snd_fst)
  then have 3: "sorted_wrt (\<lambda>a b. similarity q b \<le> similarity q a) ?ranked"
    by (simp add: sorted_wrt_map)
  have 4: "filter (\<lambda>c. similarity q c = s) ?ranked = filter (\<lambda>c. similarity q c = s) chunks" for s
  proof -
    have "filter (\<lambda>c. similarity q c = s) ?ranked =
        map fst (filter (\<lambda>p. similarity q (fst p) = s) ?sorted)"
      by (simp add: filter_map comp_def)
    also have "filter (\<lambda>p. similarity q (fst p) = s) ?sorted = filter (\<lambda>p. snd p = s) ?sorted"
      by (rule filter_cong [OF refl]) (simp add: snd_fst)
    also have "\<dots> = filter (\<lambda>p. snd p = s) ?fin"
      by (rule filter_stableSort)
    also have "map fst \<dots> = filter (\<lambda>c. similarity q c = s) chunks"
      by (simp add: filter_map comp_def)
    finally show ?thesis .
  qed
  from 1 2 3 4 show ?thesis by blast
qed

lemma cos_unit: "cosineSimilarity [1, 0] [1, 0] = Fin 1"
  by (simp add: cosineSimilarity_def)

text \<open>
  An index that lists a chunk of \<^verbatim>\<open>b.ts\<close> before a chunk of \<^verbatim>\<open>a.ts\<close>, both with
  similarity 1 to the query: the result keeps \<^verbatim>\<open>b.ts\<close> first, against the order by
  \<open>(file, startLine)\<close>.
\<close>

theorem searchCode_ties_keep_list_order:
  "searchCode [1, 0] [chunkOfB, chunkA] 10 = Inr [chunkOfB, chunkA] \<and>
   chunkScore [1, 0] chunkOfB = Inr (Fin 1) \<and> chunkScore [1, 0] chunkA = Inr (Fin 1) \<and>
   \<not> specBefore (chunkOfB, 1) (chunkA, 1)"
  by (simp add: searchCode_def chunkScore_def chunkOfB_def chunkA_def cos_unit compareScore_def
      slice0_def specBefore_def)

text \<open>The same index: the two chunks of similarity 1 stay in the order of the index.\<close>

theorem searchCode_stable_descending_witness:
  "embedding chunkOfB = Some [1, 0] \<and> embedding chunkA = Some [1, 0] \<and>
   cosineSimilarity [1, 0] [1, 0] = Fin 1 \<and>
   (\<exists>ranked.
      searchCode [1, 0] [chunkOfB, chunkA] 10 = Inr (slice0 10 ranked) \<and>
      mset ranked = mset [chunkOfB, chunkA] \<and>
      sorted_wrt (\<lambda>a b. similarity [1, 0] b \<le> similarity [1, 0] a) ranked \<and>
      filter (\<lambda>c. similarity [1, 0] c = 1) ranked = [chunkOfB, chunkA])"
proof -
  have e: "embedding chunkOfB = Some [1, 0]" "embedding chunkA = Some [1, 0]"
    by (simp_all add: chunkOfB_def chunkA_def)
  have h: "\<forall>c \<in> set [chunkOfB, chunkA]. \<exists>e s. embedding c = Some e \<and> cosineSimilarity [1, 0] e = Fin s"
    by (simp add: e cos_unit)
  have s: "similarity [1, 0] chunkOfB = 1" "similarity [1, 0] chunkA = 1"
    by (simp_all add: similarity_def e cos_unit numVal_def)
  from searchCode_stable_descending [OF h, of 10] obtain ranked where
    r: "searchCode [1, 0] [chunkOfB, chunkA] 10 = Inr (slice0 10 ranked)"
      "mset ranked = mset [chunkOfB, chunkA]"
      "sorted_wrt (\<lambda>a b. similarity [1, 0] b \<le> similarity [1, 0] a) ranked"
      "\<forall>s. filter (\<lambda>c. similarity [1, 0] c = s) ranked = filter (\<lambda>c. similarity [1, 0] c = s) [chunkOfB, chunkA]"
    by blast
  from r(4) have "filter (\<lambda>c. similarity [1, 0] c = 1) ranked = [chunkOfB, chunkA]"
    by (simp add: s)
  with r(1,2,3) e cos_unit show ?thesis by blast
qed

section \<open>Saving and loading the index\<close>

subsection \<open>What a value is after \<^verbatim>\<open>JSON.stringify\<close> and \<^verbatim>\<open>JSON.parse\<close>\<close>

lemma parse_stringify_number:
  "parseValue (stringifyValue (VNumber n)) =
     (if isFiniteNumber n then VNumber (unsigned n) else VNull)"
  by (cases n) simp_all

lemma parse_stringify_plain:
  "plainNumber n \<Longrightarrow> parseValue (stringifyValue (VNumber n)) = VNumber n"
  by (cases n) simp_all

lemma parse_stringify_plain_numbers:
  "list_all plainNumber xs \<Longrightarrow>
     map (parseValue \<circ> stringifyValue) (map VNumber xs) = map VNumber xs"
  by (induction xs) (simp_all add: parse_stringify_plain del: stringifyValue.simps)

lemma parse_stringify_finite_numbers:
  "list_all isFiniteNumber xs \<Longrightarrow>
     map (parseValue \<circ> stringifyValue) (map VNumber xs) = map VNumber (map unsigned xs)"
  by (induction xs) (simp_all add: parse_stringify_number del: stringifyValue.simps)

lemma parse_stringify_chunk:
  "list_all plainNumber (storedEmbedding c) \<Longrightarrow>
     parseValue (stringifyValue (chunkObject c)) = chunkObject c"
  using parse_stringify_plain_numbers [of "storedEmbedding c"]
  by (simp add: chunkObject_def comp_def)

lemma parse_stringify_chunk_unsigned:
  "list_all isFiniteNumber (storedEmbedding c) \<Longrightarrow>
     parseValue (stringifyValue (chunkObject c)) = chunkObject (unsignedChunk c)"
  using parse_stringify_finite_numbers [of "storedEmbedding c"]
  by (simp add: chunkObject_def unsignedChunk_def comp_def)

lemma parse_stringify_chunks:
  "\<forall>c \<in> set cs. list_all plainNumber (storedEmbedding c) \<Longrightarrow>
     parseValue (stringifyValue (chunksValue cs)) = chunksValue cs"
  by (induction cs) (simp_all add: chunksValue_def parse_stringify_chunk)

lemma parse_stringify_chunks_unsigned:
  "\<forall>c \<in> set cs. list_all isFiniteNumber (storedEmbedding c) \<Longrightarrow>
     parseValue (stringifyValue (chunksValue cs)) = chunksValue (map unsignedChunk cs)"
  by (induction cs) (simp_all add: chunksValue_def parse_stringify_chunk_unsigned)

subsection \<open>Reading the array of chunks back from its value\<close>

lemma asNumbers_numbers: "asNumbers (VArray (map VNumber xs)) = Some xs"
  by (induction xs) simp_all

lemma asNat_nat: "asNat (VNumber (Num (real n))) = Some n"
  by simp

lemma asChunk_chunkObject: "asChunk (chunkObject c) = Some c"
  by (simp add: asChunk_def chunkObject_def chunkKeys_def asNumbers_numbers
      del: asNumbers.simps asNat.simps)
     (simp add: asNat_nat del: asNat.simps)

lemma asChunks_chunksValue: "asChunks (chunksValue cs) = Some cs"
  by (induction cs) (simp_all add: chunksValue_def asChunk_chunkObject)

lemma search_built:
  "indexChunks idx = chunksValue cs \<Longrightarrow>
     search embedQuery query topK idx w =
       Some (searchStored (embedQuery query) cs topK,
             w\<lparr>providerCalls := providerCalls w @ [query]\<rparr>)"
  by (simp add: search_def asChunks_chunksValue)

subsection \<open>The stored search and \<open>searchCode\<close>\<close>

text \<open>
  The sort commutes with a map that keeps the comparator, and so does the slice.
\<close>

lemma insertSorted_map:
  assumes "\<And>a b. cmp' (f a) (f b) = cmp a b"
  shows "insertSorted cmp' (f x) (map f ys) = map f (insertSorted cmp x ys)"
  by (induction ys) (simp_all add: assms)

lemma stableSort_map:
  assumes "\<And>a b. cmp' (f a) (f b) = cmp a b"
  shows "stableSort cmp' (map f xs) = map f (stableSort cmp xs)"
  by (induction xs) (simp_all add: insertSorted_map [of cmp' f cmp, OF assms])

lemma slice0_of_map: "slice0 k (map f xs) = map f (slice0 k xs)"
  by (simp add: slice0_def take_map)

text \<open>
  The sign of a zero does not reach the scores: the search on the chunks with their
  negative zeros made positive gives the chunks of the search on the chunks as they
  are, in the same order, with their negative zeros made positive.
\<close>

lemma storedScore_unsigned: "storedScore q (unsignedChunk c) = storedScore q c"
proof -
  have r: "map realOf (map unsigned xs) = map realOf xs" for xs
  proof (induction xs)
    case (Cons x xs) then show ?case by (cases x) simp_all
  qed simp
  have f: "list_all isFiniteNumber (take n (map unsigned xs)) = list_all isFiniteNumber (take n xs)" for n xs
  proof (induction xs arbitrary: n)
    case (Cons x xs) then show ?case by (cases n; cases x) simp_all
  qed simp
  show ?thesis
    by (simp add: storedScore_def unsignedChunk_def r f del: map_map)
qed

lemma searchStored_unsigned:
  "searchStored q (map unsignedChunk cs) k =
     (case searchStored q cs k of Inl e \<Rightarrow> Inl e | Inr rs \<Rightarrow> Inr (map unsignedChunk rs))"
proof -
  let ?f = "\<lambda>p :: StoredChunk \<times> number. (unsignedChunk (fst p), snd p)"
  let ?scored = "map (\<lambda>chunk. (chunk, storedScore q chunk)) cs"
  have scored: "map (\<lambda>chunk. (chunk, storedScore q chunk)) (map unsignedChunk cs) = map ?f ?scored"
    by (simp add: storedScore_unsigned comp_def)
  have fin: "finiteStored (map ?f ?scored) = finiteStored ?scored"
    by (simp add: finiteStored_def list_all_iff)
  have snds: "map snd (map ?f ?scored) = map snd ?scored"
    by (simp add: comp_def)
  have sorted: "stableSort compareStored (map ?f ?scored) = map ?f (stableSort compareStored ?scored)"
    by (rule stableSort_map) (simp add: compareStored_def)
  have fsts: "map fst (map ?f xs) = map unsignedChunk (map fst xs)" for xs
    by (simp add: comp_def)
  show ?thesis
    unfolding searchStored_def Let_def scored fin snds sorted slice0_of_map fsts
    by simp
qed

text \<open>
  On chunks whose embeddings hold finite numbers, \<open>searchStored\<close> is \<open>searchCode\<close> on
  the chunks with their numbers read as real numbers.
\<close>

lemma scoreAll_chunkOf:
  "\<forall>c \<in> set cs. list_all isFiniteNumber (storedEmbedding c) \<Longrightarrow>
     scoreAll q (map chunkOf cs) = Inr (map (\<lambda>c. (chunkOf c, storedScore q c)) cs)"
proof (induction cs)
  case (Cons c cs)
  have "list_all isFiniteNumber (take (length q) (storedEmbedding c))"
    using Cons.prems by (auto simp: list_all_iff dest: in_set_takeD)
  then have "chunkScore q (chunkOf c) = Inr (storedScore q c)"
    by (simp add: chunkScore_def chunkOf_def storedScore_def)
  then show ?case
    using Cons by simp
qed simp

lemma finiteScores_chunkOf:
  "finiteScores (map (\<lambda>p. (chunkOf (fst p), snd p)) scored) =
     (if finiteStored scored then Some (map (\<lambda>p. (chunkOf (fst p), numVal (snd p))) scored)
      else None)"
proof (induction scored)
  case (Cons p scored)
  obtain c s where p: "p = (c, s)" by (cases p)
  show ?case
    using Cons by (cases s) (simp_all add: p finiteStored_def numVal_def)
qed (simp add: finiteStored_def)

lemma finiteValues_chunkOf:
  "finiteValues (map (\<lambda>p. (chunkOf (fst p), snd p)) scored) =
     map numVal (filter (\<lambda>s. s \<noteq> NonFinite) (map snd scored))"
proof (induction scored)
  case (Cons p scored)
  obtain c s where p: "p = (c, s)" by (cases p)
  show ?case
    using Cons by (cases s) (simp_all add: p numVal_def)
qed simp

lemma searchCode_chunkOf:
  assumes "\<forall>c \<in> set cs. list_all isFiniteNumber (storedEmbedding c)"
  shows "searchCode q (map chunkOf cs) k =
     (case searchStored q cs k of Inl e \<Rightarrow> Inl e | Inr rs \<Rightarrow> Inr (map chunkOf rs))"
proof -
  let ?scored = "map (\<lambda>chunk. (chunk, storedScore q chunk)) cs"
  let ?g = "\<lambda>p :: StoredChunk \<times> number. (chunkOf (fst p), snd p)"
  let ?h = "\<lambda>p :: StoredChunk \<times> number. (chunkOf (fst p), numVal (snd p))"
  have all: "scoreAll q (map chunkOf cs) = Inr (map ?g ?scored)"
    using scoreAll_chunkOf [OF assms, of q] by (simp add: comp_def)
  have sorted: "stableSort compareScore (map ?h ?scored) = map ?h (stableSort compareStored ?scored)"
    by (rule stableSort_map) (simp add: compareStored_def compareScore_def)
  have fh: "map fst (map ?h xs) = map chunkOf (map fst xs)" for xs
    by (simp add: comp_def)
  have fg: "map fst (map ?g xs) = map chunkOf (map fst xs)" for xs
    by (simp add: comp_def)
  have code: "searchCode q (map chunkOf cs) k =
      (case finiteScores (map ?g ?scored) of
         Some fin \<Rightarrow> Inr (map fst (slice0 k (stableSort compareScore fin)))
       | None \<Rightarrow>
           if allEqual (finiteValues (map ?g ?scored))
           then Inr (map fst (slice0 k (map ?g ?scored)))
           else Inl SortOrderUnspecified)"
    by (simp only: searchCode_def all sum.case)
  have stored: "searchStored q cs k =
      (if finiteStored ?scored
       then Inr (map fst (slice0 k (stableSort compareStored ?scored)))
       else if allEqual (map numVal (filter (\<lambda>s. s \<noteq> NonFinite) (map snd ?scored)))
       then Inr (map fst (slice0 k ?scored))
       else Inl SortOrderUnspecified)"
    by (simp only: searchStored_def Let_def)
  show ?thesis
  proof (cases "finiteStored ?scored")
    case True
    then show ?thesis
      by (simp only: code stored finiteScores_chunkOf [of ?scored] if_True option.case
          sorted slice0_of_map fh sum.case)
  next
    case False
    have none: "finiteScores (map ?g ?scored) = None"
      using False by (simp only: finiteScores_chunkOf [of ?scored] if_False)
    show ?thesis
    proof (cases "allEqual (map numVal (filter (\<lambda>s. s \<noteq> NonFinite) (map snd ?scored)))")
      case True
      with False show ?thesis
        by (simp only: code stored none finiteValues_chunkOf [of ?scored]
            if_False if_True option.case slice0_of_map fg sum.case)
    next
      case eq: False
      with False show ?thesis
        by (simp only: code stored none finiteValues_chunkOf [of ?scored]
            if_False option.case sum.case)
    qed
  qed
qed

subsection \<open>\<open>save\<close>, then \<open>load\<close>, then \<open>search\<close>\<close>

lemma plainChunks_search:
  "searchStored (constantProvider ''q'') plainChunks 10 = Inr (rev plainChunks)"
  by (simp add: searchStored_def constantProvider_def plainChunks_def withEmbedding_def
      storedScore_def cosineSimilarity_def finiteStored_def compareStored_def numVal_def slice0_def)

text \<open>
  C9, as the code has it. For a built index whose embeddings hold finite numbers, none
  of them a negative zero, and a path that can be written: \<open>save\<close> succeeds; \<open>load\<close>
  from that path then succeeds, on any index, and leaves the chunks equal to those that
  were saved; neither of the two calls the embedding provider; and \<open>search\<close> with one
  query and one \<open>topK\<close> gives one result on the index that was saved and on the index
  that was loaded, each by one call to the provider for the query. The provider is taken
  to answer one query with one embedding.
\<close>

theorem save_load_search:
  assumes built: "indexChunks idx = chunksValue cs"
    and plain: "list_all (\<lambda>c. list_all plainNumber (storedEmbedding c)) cs"
    and writable: "writable w filePath"
  shows "\<exists>w' idx'.
           save filePath idx w = Inr w' \<and>
           load filePath other w' = Inr (idx', w') \<and>
           indexChunks idx' = indexChunks idx \<and>
           providerCalls w' = providerCalls w \<and>
           search embedQuery query topK idx w =
             Some (searchStored (embedQuery query) cs topK,
                   w\<lparr>providerCalls := providerCalls w @ [query]\<rparr>) \<and>
           search embedQuery query topK idx' w' =
             Some (searchStored (embedQuery query) cs topK,
                   w'\<lparr>providerCalls := providerCalls w @ [query]\<rparr>)"
proof -
  let ?w = "w\<lparr>fileSystem := (fileSystem w)(filePath \<mapsto> jsonStringify (indexChunks idx))\<rparr>"
  let ?idx = "other\<lparr>indexChunks := indexChunks idx\<rparr>"
  have saved: "save filePath idx w = Inr ?w"
    using writable by (simp add: save_def)
  have reread: "parseValue (stringifyValue (indexChunks idx)) = indexChunks idx"
    using parse_stringify_chunks [of cs] plain by (simp add: built list_all_iff)
  have loaded: "load filePath other ?w = Inr (?idx, ?w)"
    by (simp add: load_def jsonParse_def jsonStringify_def reread)
  have calls: "providerCalls ?w = providerCalls w"
    by simp
  have chunks: "indexChunks ?idx = chunksValue cs"
    by (simp add: built)
  have first: "search embedQuery query topK idx w =
             Some (searchStored (embedQuery query) cs topK,
                   w\<lparr>providerCalls := providerCalls w @ [query]\<rparr>)"
    by (rule search_built [OF built])
  have second: "search embedQuery query topK ?idx ?w =
             Some (searchStored (embedQuery query) cs topK,
                   ?w\<lparr>providerCalls := providerCalls w @ [query]\<rparr>)"
    using search_built [OF chunks, of embedQuery query topK ?w] by simp
  from saved loaded calls first second show ?thesis
    by (intro exI [of _ ?w] exI [of _ ?idx] conjI) (simp_all add: built)
qed

text \<open>
  The index of two chunks with the embeddings \<open>(1, 0)\<close> and \<open>(0, 1)\<close>, saved to
  \<^verbatim>\<open>index.json\<close> and loaded into a new index; the provider answers \<open>(0, 1)\<close>, and
  the search puts the second chunk first, before and after.
\<close>

theorem save_load_search_witness:
  "indexChunks plainIndex = chunksValue plainChunks \<and>
   list_all (\<lambda>c. list_all plainNumber (storedEmbedding c)) plainChunks \<and>
   writable emptyWorld ''index.json'' \<and>
   (\<exists>w' idx'.
      save ''index.json'' plainIndex emptyWorld = Inr w' \<and>
      load ''index.json'' newCodeIndex w' = Inr (idx', w') \<and>
      indexChunks idx' = indexChunks plainIndex \<and>
      providerCalls w' = [] \<and>
      search constantProvider ''q'' 10 plainIndex emptyWorld =
        Some (Inr (rev plainChunks), emptyWorld\<lparr>providerCalls := [''q'']\<rparr>) \<and>
      search constantProvider ''q'' 10 idx' w' =
        Some (Inr (rev plainChunks), w'\<lparr>providerCalls := [''q'']\<rparr>))"
proof -
  have a: "indexChunks plainIndex = chunksValue plainChunks"
    by (simp add: plainIndex_def)
  have b: "list_all (\<lambda>c. list_all plainNumber (storedEmbedding c)) plainChunks"
    by (simp add: plainChunks_def withEmbedding_def)
  have c: "writable emptyWorld ''index.json''"
    by (simp add: emptyWorld_def)
  have d: "providerCalls emptyWorld = []"
    by (simp add: emptyWorld_def)
  show ?thesis
    using save_load_search [OF a b c, of newCodeIndex constantProvider "''q''" 10] a b c
    by (simp only: plainChunks_search d append_Nil)
qed

text \<open>
  An index of one chunk whose embedding is \<open>(-0, 1)\<close>. \<open>save\<close> writes the negative
  zero as \<^verbatim>\<open>0\<close>, and \<open>load\<close> reads a positive zero: the chunks of the loaded index
  are not the chunks that were saved, and the chunk that \<open>search\<close> returns on the
  loaded index is not the chunk that it returns on the saved one. No call to the
  provider is made by \<open>save\<close> or \<open>load\<close>.
\<close>

theorem save_load_negative_zero:
  "\<exists>w' idx'.
     save ''index.json'' signedIndex emptyWorld = Inr w' \<and>
     load ''index.json'' newCodeIndex w' = Inr (idx', w') \<and>
     providerCalls w' = [] \<and>
     indexChunks idx' \<noteq> indexChunks signedIndex \<and>
     search constantProvider ''q'' 10 signedIndex emptyWorld =
       Some (Inr signedChunks, emptyWorld\<lparr>providerCalls := [''q'']\<rparr>) \<and>
     search constantProvider ''q'' 10 idx' w' =
       Some (Inr (map unsignedChunk signedChunks), w'\<lparr>providerCalls := [''q'']\<rparr>) \<and>
     map unsignedChunk signedChunks \<noteq> signedChunks"
  by (simp add: save_def load_def emptyWorld_def signedIndex_def newCodeIndex_def
      jsonStringify_def jsonParse_def chunksValue_def chunkObject_def signedChunks_def
      withEmbedding_def search_def asChunk_def chunkKeys_def searchStored_def
      storedScore_def cosineSimilarity_def finiteStored_def compareStored_def numVal_def
      slice0_def constantProvider_def unsignedChunk_def)

text \<open>
  What is kept when the embeddings hold negative zeros among their finite numbers: the
  loaded chunks are the saved ones with the negative zeros made positive, and the search
  on them gives the same chunks in the same order, with the negative zeros made positive.
\<close>

lemma save_load_search_unsigned:
  assumes built: "indexChunks idx = chunksValue cs"
    and finite: "\<forall>c \<in> set cs. list_all isFiniteNumber (storedEmbedding c)"
    and writable: "writable w filePath"
  shows "\<exists>w' idx'.
           save filePath idx w = Inr w' \<and>
           load filePath other w' = Inr (idx', w') \<and>
           indexChunks idx' = chunksValue (map unsignedChunk cs) \<and>
           providerCalls w' = providerCalls w \<and>
           search embedQuery query topK idx' w' =
             Some ((case searchStored (embedQuery query) cs topK of
                      Inl e \<Rightarrow> Inl e
                    | Inr rs \<Rightarrow> Inr (map unsignedChunk rs)),
                   w'\<lparr>providerCalls := providerCalls w @ [query]\<rparr>)"
proof -
  let ?w = "w\<lparr>fileSystem := (fileSystem w)(filePath \<mapsto> jsonStringify (indexChunks idx))\<rparr>"
  let ?idx = "other\<lparr>indexChunks := chunksValue (map unsignedChunk cs)\<rparr>"
  have saved: "save filePath idx w = Inr ?w"
    using writable by (simp add: save_def)
  have reread: "parseValue (stringifyValue (indexChunks idx)) = chunksValue (map unsignedChunk cs)"
    using parse_stringify_chunks_unsigned [OF finite] by (simp add: built)
  have loaded: "load filePath other ?w = Inr (?idx, ?w)"
    by (simp add: load_def jsonParse_def jsonStringify_def reread)
  have chunks: "indexChunks ?idx = chunksValue (map unsignedChunk cs)"
    by simp
  have found: "search embedQuery query topK ?idx ?w =
             Some ((case searchStored (embedQuery query) cs topK of
                      Inl e \<Rightarrow> Inl e
                    | Inr rs \<Rightarrow> Inr (map unsignedChunk rs)),
                   ?w\<lparr>providerCalls := providerCalls w @ [query]\<rparr>)"
    using search_built [OF chunks, of embedQuery query topK ?w]
    by (simp add: searchStored_unsigned)
  from saved loaded found show ?thesis
    by (intro exI [of _ ?w] exI [of _ ?idx] conjI) simp_all
qed


end
